theory Spec2Isabelle
  imports Main "HOL-Library.Word" "HOL-Library.Signed_Division"
begin

unbundle bit_operations_syntax

section \<open>The scheduler of i3blocks (sched.c)\<close>

text \<open>
  The theory embeds \<^verbatim>\<open>sched.c\<close>: the interval reducer \<^verbatim>\<open>longest_sleep\<close>, the
  initialisation (\<^verbatim>\<open>setup_signals\<close>, \<^verbatim>\<open>setup_timer\<close>, \<^verbatim>\<open>eventio_stdin\<close>,
  \<^verbatim>\<open>sched_init\<close>) and the reactor \<^verbatim>\<open>sched_start\<close> with its shutdown sequence.

  Conventions of the embedding.
  \<^item> A C \<^verbatim>\<open>int\<close> or \<^verbatim>\<open>unsigned int\<close> that takes part in arithmetic is a \<open>32 word\<close>;
    \<open>sint\<close> reads it as \<^verbatim>\<open>int\<close>, \<open>uint\<close> as \<^verbatim>\<open>unsigned\<close>. Conversions between the two
    keep the bits.
  \<^item> File descriptors, signal numbers, return values of system calls and process ids
    are only compared, stored and moved by one; they are \<open>int\<close>.
  \<^item> An \<^verbatim>\<open>fd_set\<close> and a \<^verbatim>\<open>sigset_t\<close> are sets of numbers.
  \<^item> The calls to the other modules of the program (bar, block, json, log) and the
    system calls whose order matters are recorded as a list of events.
  \<^item> What the operating system answers (return values, ready descriptors, signal
    records) is an input of the model.
\<close>

subsection \<open>Data\<close>

type_synonym cint = "32 word"

text \<open>
  Modelled from the spec: \<^verbatim>\<open>struct block\<close>, which is declared in \<^verbatim>\<open>block.h\<close>, not among
  the sources. The scheduler reads three fields of it: the refresh interval (a number of
  seconds, or a sentinel for "run once" or for "keep running and stream output") and the
  output and error descriptors. \<^verbatim>\<open>interval\<close> is taken as a C \<^verbatim>\<open>int\<close>: the scheduler tests
  \<^verbatim>\<open>interval > 0\<close> to tell a period from the sentinels and passes it to a function with
  \<^verbatim>\<open>int\<close> parameters. The descriptors are \<^verbatim>\<open>int\<close> as everywhere in POSIX.
\<close>

record block =
  interval :: cint
  out :: int
  err :: int

text \<open>
  Modelled from the spec: \<^verbatim>\<open>struct bar\<close>, which is declared in \<^verbatim>\<open>bar.h\<close>, not among the
  sources: the ordered collection of the blocks (\<^verbatim>\<open>blocks\<close>) with its count (\<^verbatim>\<open>num\<close>). The
  array is a list and \<^verbatim>\<open>num\<close> is its length, so \<^verbatim>\<open>bar->blocks + i\<close> for \<^verbatim>\<open>i < bar->num\<close>
  is the \<open>i\<close>-th element.
\<close>

record bar =
  blocks :: "block list"

definition num :: "bar \<Rightarrow> nat" where
  "num b = length (blocks b)"

subsection \<open>The interval reducer\<close>

text \<open>The operator \<^verbatim>\<open>%\<close> on \<^verbatim>\<open>int\<close>: the remainder of the division truncated towards zero.\<close>

definition c_rem :: "cint \<Rightarrow> cint \<Rightarrow> cint" where
  "c_rem a b = word_of_int (sint a smod sint b)"

text \<open>
  The nested function \<^verbatim>\<open>gcd\<close> of \<^verbatim>\<open>longest_sleep\<close>:
  \<^verbatim>\<open>while (b != 0) a %= b, a ^= b, b ^= a, a ^= b; return a;\<close>
\<close>

function gcd_c :: "cint \<Rightarrow> cint \<Rightarrow> cint" where
  "gcd_c a b =
     (if b \<noteq> 0 then
        (let a = c_rem a b; a = a XOR b; b = b XOR a; a = a XOR b in gcd_c a b)
      else a)"
  by pat_completeness auto

text \<open>The body of the loop of \<^verbatim>\<open>longest_sleep\<close> for one block.\<close>

definition gcd_step :: "block \<Rightarrow> cint \<Rightarrow> cint" where
  "gcd_step b time = (if 0 < sint (interval b) then gcd_c time (interval b) else time)"

definition longest_sleep :: "bar \<Rightarrow> cint" where
  "longest_sleep bar =
     (let time = (if 0 < num bar \<and> 0 < sint (interval (hd (blocks bar)))
                  then interval (hd (blocks bar)) else 0)
      in if num bar < 2 then time
         else fold gcd_step (tl (blocks bar)) time)"

text \<open>The strictly positive intervals of a bar, as C \<^verbatim>\<open>int\<close> values, in block order.\<close>

definition positive_intervals :: "bar \<Rightarrow> int list" where
  "positive_intervals bar =
     map (\<lambda>b. sint (interval b)) (filter (\<lambda>b. 0 < sint (interval b)) (blocks bar))"

subsection \<open>Constants of the platform and of the other modules\<close>

text \<open>
  The signal numbers, \<^verbatim>\<open>EINTR\<close>, the size of \<^verbatim>\<open>struct signalfd_siginfo\<close> and
  \<^verbatim>\<open>FD_SETSIZE\<close> come from the system headers. \<^verbatim>\<open>INTER_BLOCKING\<close>, \<^verbatim>\<open>READY_STDOUT\<close> and \<^verbatim>\<open>READY_STDERR\<close> are
  macros of \<^verbatim>\<open>block.h\<close>, which is not among the sources. All of them are parameters
  of the model.
\<close>

record platform =
  SIGTERM :: int
  SIGINT :: int
  SIGALRM :: int
  SIGCHLD :: int
  SIGUSR1 :: int
  SIGUSR2 :: int
  SIGIO :: int
  SIGRTMIN :: int
  SIGRTMAX :: int
  EINTR :: int
  siginfo_size :: int
  FD_SETSIZE :: int
  INTER_BLOCKING :: cint
  READY_STDOUT :: int
  READY_STDERR :: int

text \<open>
  On every platform the seven standard signals the scheduler names are below the
  real-time range.
\<close>

definition standard_signals :: "platform \<Rightarrow> int list" where
  "standard_signals p =
     [SIGTERM p, SIGINT p, SIGALRM p, SIGCHLD p, SIGUSR1 p, SIGUSR2 p, SIGIO p]"

definition standard_below_rt :: "platform \<Rightarrow> bool" where
  "standard_below_rt p = list_all (\<lambda>s. s < SIGRTMIN p) (standard_signals p)"

subsection \<open>Events and state\<close>

record timeval =
  tv_sec :: int
  tv_usec :: int

record itimerval =
  it_interval :: timeval
  it_value :: timeval

datatype how = SIG_SETMASK | SIG_UNBLOCK

text \<open>
  The calls the scheduler makes to the other modules, with a block named by its index
  in the bar, the diagnostics with their format string, and the system calls that
  change the process.
\<close>

datatype event =
    Json_print_bar
  | Bar_poll_timed
  | Bar_poll_outdated
  | Bar_poll_exited
  | Bar_poll_clicked
  | Bar_poll_signaled int
  | Block_read_std nat int int
  | Berror nat string
  | Error string
  | Errorx string
  | Debug string
  | Sys_signalfd "int set"
  | Sys_sigprocmask how "int set"
  | Sys_setitimer itimerval
  | Sys_fcntl_setown
  | Sys_fcntl_setfl
  | Sys_waitpid int

text \<open>
  The state: the two static variables of \<^verbatim>\<open>sched.c\<close>, the signal mask and the real
  timer of the process, and the events so far.
\<close>

record state =
  sigset :: "int set"
  sigfd :: int
  sigmask :: "int set"
  itimer :: "itimerval option"
  log :: "event list"

definition emit :: "event list \<Rightarrow> state \<Rightarrow> state" where
  "emit es st = st\<lparr>log := log st @ es\<rparr>"

text \<open>What the system calls of the initialisation return.\<close>

record answers =
  sigemptyset_ret :: int
  sigaddset_ret :: "int \<Rightarrow> int"
  signalfd_ret :: int
  sigprocmask_ret :: int
  setitimer_ret :: int
  isatty_ret :: int
  fcntl_setown_ret :: int
  fcntl_setfl_ret :: int

subsection \<open>Initialisation\<close>

text \<open>
  \<^verbatim>\<open>setup_timer\<close>. The initialiser of \<^verbatim>\<open>itv\<close> names the two \<^verbatim>\<open>tv_sec\<close> fields; the
  others are zero.
\<close>

definition setup_timer :: "answers \<Rightarrow> bar \<Rightarrow> state \<Rightarrow> int \<times> state" where
  "setup_timer y bar st =
     (let sleeptime = longest_sleep bar in
      if sleeptime = 0 then (0, emit [Debug ''no timer needed''] st)
      else
        let itv = \<lparr>it_interval = \<lparr>tv_sec = uint sleeptime, tv_usec = 0\<rparr>,
                   it_value = \<lparr>tv_sec = uint sleeptime, tv_usec = 0\<rparr>\<rparr>
        in if setitimer_ret y = - 1
           then (1, emit [Sys_setitimer itv, Errorx ''setitimer''] st)
           else (0, emit [Sys_setitimer itv, Debug ''starting timer with interval of %d seconds'']
                      (st\<lparr>itimer := Some itv\<rparr>)))"

text \<open>
  The macro \<^verbatim>\<open>ADD_SIG\<close> over a list of signals, in order: the first failure logs and
  ends the function with 1 (here \<open>False\<close>). The flag \<open>dbg\<close> is set for the loop over the
  real-time signals, which logs each signal before it adds it.
\<close>

fun add_sigs :: "answers \<Rightarrow> bool \<Rightarrow> int list \<Rightarrow> state \<Rightarrow> bool \<times> state" where
  "add_sigs y dbg [] st = (True, st)"
| "add_sigs y dbg (sig # sigs) st =
     (let st = (if dbg then emit [Debug ''provide signal %d (%s)''] st else st) in
      if sigaddset_ret y sig = - 1 then (False, emit [Errorx ''sigaddset(%d)''] st)
      else add_sigs y dbg sigs (st\<lparr>sigset := insert sig (sigset st)\<rparr>))"

definition setup_signals :: "platform \<Rightarrow> answers \<Rightarrow> state \<Rightarrow> int \<times> state" where
  "setup_signals p y st =
     (if sigemptyset_ret y = - 1 then (1, emit [Errorx ''sigemptyset''] st)
      else
        case add_sigs y False
               [SIGTERM p, SIGINT p, SIGALRM p, SIGCHLD p, SIGUSR1 p, SIGUSR2 p, SIGIO p]
               (st\<lparr>sigset := {}\<rparr>) of
          (False, st) \<Rightarrow> (1, st)
        | (True, st) \<Rightarrow>
            (case add_sigs y True [SIGRTMIN p + 1..SIGRTMAX p] st of
               (False, st) \<Rightarrow> (1, st)
             | (True, st) \<Rightarrow>
                 let st = emit [Sys_signalfd (sigset st)] (st\<lparr>sigfd := signalfd_ret y\<rparr>) in
                 if sigfd st = - 1 then (1, emit [Errorx ''signalfd''] st)
                 else if sigprocmask_ret y = - 1
                 then (1, emit [Sys_sigprocmask SIG_SETMASK (sigset st), Errorx ''sigprocmask''] st)
                 else (0, emit [Sys_sigprocmask SIG_SETMASK (sigset st)]
                            (st\<lparr>sigmask := sigset st\<rparr>))))"

definition eventio_stdin :: "answers \<Rightarrow> state \<Rightarrow> int \<times> state" where
  "eventio_stdin y st =
     (if fcntl_setown_ret y = - 1
      then (1, emit [Sys_fcntl_setown, Error ''failed to set process as owner for stdin''] st)
      else if fcntl_setfl_ret y = - 1
      then (1, emit [Sys_fcntl_setown, Sys_fcntl_setfl,
                     Error ''failed to enable I/O signaling for stdin''] st)
      else (0, emit [Sys_fcntl_setown, Sys_fcntl_setfl] st))"

definition sched_init :: "platform \<Rightarrow> answers \<Rightarrow> bar \<Rightarrow> state \<Rightarrow> int \<times> state" where
  "sched_init p y bar st =
     (case setup_signals p y st of
        (rc, st) \<Rightarrow>
          if rc \<noteq> 0 then (1, st)
          else case setup_timer y bar st of
            (rc, st) \<Rightarrow>
              if rc \<noteq> 0 then (1, st)
              else if isatty_ret y = 0
              then (case eventio_stdin y st of (rc, st) \<Rightarrow> if rc \<noteq> 0 then (1, st) else (0, st))
              else (0, st))"

subsection \<open>The reactor\<close>

text \<open>\<^verbatim>\<open>copy_fd_set\<close>: the descriptors \<open>0 \<le> i < nfds\<close> of the source, one by one.\<close>

definition copy_fd_set :: "int set \<Rightarrow> int \<Rightarrow> int set" where
  "copy_fd_set source nfds =
     fold (\<lambda>i dest. if i \<in> source then insert i dest else dest) [0..nfds - 1] {}"

text \<open>
  An \<^verbatim>\<open>fd_set\<close> is a bitmap of \<^verbatim>\<open>FD_SETSIZE\<close> bits. \<^verbatim>\<open>FD_SET\<close> does not check its
  descriptor: with a descriptor outside \<open>0 \<le> fd < FD_SETSIZE\<close> it writes outside the
  bitmap and the behaviour of the program is undefined. The model stops there with a
  fault.
\<close>

datatype fault = Fd_out_of_range int

definition FD_SET :: "platform \<Rightarrow> int \<Rightarrow> int set \<Rightarrow> fault + int set" where
  "FD_SET p fd fds =
     (if 0 \<le> fd \<and> fd < FD_SETSIZE p then Inr (insert fd fds) else Inl (Fd_out_of_range fd))"

text \<open>
  The macro \<^verbatim>\<open>ADD_FD\<close> with \<^verbatim>\<open>MAX\<close>, on the pair of \<^verbatim>\<open>rfds\<close> and \<^verbatim>\<open>nfds\<close>, the loop
  over the blocks that adds the descriptors of the \<^verbatim>\<open>INTER_BLOCKING\<close> blocks, and the
  construction of the wait set at the start of \<^verbatim>\<open>sched_start\<close>.
\<close>

definition ADD_FD :: "platform \<Rightarrow> int \<Rightarrow> int set \<times> int \<Rightarrow> fault + int set \<times> int" where
  "ADD_FD p fd =
     (\<lambda>(rfds, nfds).
        case FD_SET p fd rfds of
          Inl e \<Rightarrow> Inl e
        | Inr rfds \<Rightarrow> Inr (rfds, if fd > nfds then fd else nfds))"

fun add_block_fds :: "platform \<Rightarrow> block list \<Rightarrow> int set \<times> int \<Rightarrow> fault + int set \<times> int" where
  "add_block_fds p [] st = Inr st"
| "add_block_fds p (block # rest) st =
     (if interval block = INTER_BLOCKING p then
        (case ADD_FD p (out block) st of
           Inl e \<Rightarrow> Inl e
         | Inr st \<Rightarrow>
             (case ADD_FD p (err block) st of
                Inl e \<Rightarrow> Inl e
              | Inr st \<Rightarrow> add_block_fds p rest st))
      else add_block_fds p rest st)"

definition build_wait_set :: "platform \<Rightarrow> int \<Rightarrow> bar \<Rightarrow> fault + int set \<times> int" where
  "build_wait_set p sfd bar =
     (case ADD_FD p sfd ({}, 0) of
        Inl e \<Rightarrow> Inl e
      | Inr st \<Rightarrow>
          (case add_block_fds p (blocks bar) st of
             Inl e \<Rightarrow> Inl e
           | Inr (rfds, nfds) \<Rightarrow> Inr (rfds, if nfds \<noteq> 0 then nfds + 1 else nfds)))"

text \<open>
  What one return of \<^verbatim>\<open>select\<close> and the \<^verbatim>\<open>read\<close> of the signal descriptor after it
  deliver: the return value and \<^verbatim>\<open>errno\<close> of \<^verbatim>\<open>select\<close>, the descriptors it leaves in
  the read set and in the exception set, the return value of \<^verbatim>\<open>read\<close> and the signal
  number of the record read. \<^verbatim>\<open>select\<close> sets no bit: the sets after the call are the
  sets before it cut down to \<open>left_read\<close> and \<open>left_exc\<close>. (On failure, POSIX leaves the
  sets as they were: both contain every descriptor passed in.)
\<close>

record wake =
  select_ret :: int
  select_errno :: int
  left_read :: "int set"
  left_exc :: "int set"
  read_ret :: int
  ssi_signo :: int

datatype flow = Continue | Break

text \<open>
  The loop over the blocks after a failed \<^verbatim>\<open>select\<close>; \<open>i\<close> is the index of the first
  block of the list.
\<close>

fun select_failed ::
  "platform \<Rightarrow> int set \<Rightarrow> nat \<Rightarrow> block list \<Rightarrow> int set \<Rightarrow> int set \<times> event list" where
  "select_failed p rfds_exc i [] rfds = (rfds, [])"
| "select_failed p rfds_exc i (block # rest) rfds =
     (if interval block \<noteq> INTER_BLOCKING p then select_failed p rfds_exc (Suc i) rest rfds
      else if out block \<in> rfds_exc \<or> err block \<in> rfds_exc then
        (case select_failed p rfds_exc (Suc i) rest (rfds - {out block} - {err block}) of
           (rfds, es) \<Rightarrow> (rfds, Berror i ''broken stdout/err'' # Block_read_std i 1 0 # es))
      else select_failed p rfds_exc (Suc i) rest rfds)"

text \<open>The chain of tests on the signal number.\<close>

definition dispatch :: "platform \<Rightarrow> int \<Rightarrow> flow \<times> event list" where
  "dispatch p sig =
     (if sig = SIGTERM p \<or> sig = SIGINT p then (Break, [])
      else if sig = SIGALRM p then (Continue, [Bar_poll_outdated])
      else if sig = SIGCHLD p then (Continue, [Bar_poll_exited, Json_print_bar])
      else if sig = SIGIO p then (Continue, [Bar_poll_clicked])
      else if sig > SIGRTMIN p \<and> sig \<le> SIGRTMAX p
      then (Continue, [Bar_poll_signaled (sig - SIGRTMIN p)])
      else if sig = SIGUSR1 p \<or> sig = SIGUSR2 p
      then (Continue, [Error ''SIGUSR{1,2} are deprecated, ignoring.''])
      else (Continue, [Debug ''unhandled signal %d'']))"

text \<open>
  The block \<^verbatim>\<open>if (FD_ISSET(sigfd, &rfds_read))\<close>: the new \<^verbatim>\<open>avail_fds\<close> and the events,
  and whether the loop is left.
\<close>

definition signal_part ::
  "platform \<Rightarrow> int \<Rightarrow> wake \<Rightarrow> int set \<Rightarrow> int \<Rightarrow> flow \<times> int \<times> event list" where
  "signal_part p sfd w rfds_read avail_fds =
     (if sfd \<in> rfds_read then
        let avail_fds = avail_fds - 1 in
        if read_ret w \<noteq> siginfo_size p then (Break, avail_fds, [Errorx ''read''])
        else case dispatch p (ssi_signo w) of
          (fl, es) \<Rightarrow> (fl, avail_fds, Debug ''received signal %d (%s)'' # es)
      else (Continue, avail_fds, []))"

text \<open>The sweep over the blocks: the calls of \<^verbatim>\<open>block_read_std\<close> and the flag \<^verbatim>\<open>updated\<close>.\<close>

fun sweep_blocks :: "platform \<Rightarrow> int set \<Rightarrow> nat \<Rightarrow> block list \<Rightarrow> bool \<Rightarrow> bool \<times> event list" where
  "sweep_blocks p rfds_read i [] updated = (updated, [])"
| "sweep_blocks p rfds_read i (block # rest) updated =
     (if interval block = INTER_BLOCKING p then
        let ready_out = (if out block \<in> rfds_read then READY_STDOUT p else 0);
            ready_err = (if err block \<in> rfds_read then READY_STDERR p else 0)
        in if (ready_out OR ready_err) \<noteq> 0 then
             (case sweep_blocks p rfds_read (Suc i) rest True of
                (updated, es) \<Rightarrow> (updated, Block_read_std i 0 (ready_out OR ready_err) # es))
           else sweep_blocks p rfds_read (Suc i) rest updated
      else sweep_blocks p rfds_read (Suc i) rest updated)"

definition sweep :: "platform \<Rightarrow> bar \<Rightarrow> int set \<Rightarrow> event list" where
  "sweep p bar rfds_read =
     (case sweep_blocks p rfds_read 0 (blocks bar) False of
        (updated, es) \<Rightarrow> es @ (if updated then [Json_print_bar] else []))"

text \<open>
  One pass through the body of \<^verbatim>\<open>while (1)\<close>: whether the loop goes on, the wait set
  \<^verbatim>\<open>rfds\<close> after the pass and the events of the pass. \<^verbatim>\<open>nfds\<close> is not assigned in the loop.
  The descriptors a pass gives to \<^verbatim>\<open>FD_ISSET\<close>, \<^verbatim>\<open>FD_SET\<close> and \<^verbatim>\<open>FD_CLR\<close> are the signal
  descriptor, the descriptors of the \<^verbatim>\<open>INTER_BLOCKING\<close> blocks and the numbers below
  \<^verbatim>\<open>nfds\<close>. Once the wait set is built without a fault they all are in the range of an
  \<^verbatim>\<open>fd_set\<close> (\<open>built_in_range\<close> below), and the pass is written on sets of numbers.
\<close>

definition iteration ::
  "platform \<Rightarrow> bar \<Rightarrow> int \<Rightarrow> int \<Rightarrow> wake \<Rightarrow> int set \<Rightarrow> flow \<times> int set \<times> event list" where
  "iteration p bar sfd nfds w rfds =
     (let rfds_read = copy_fd_set rfds nfds \<inter> left_read w;
          rfds_exc = copy_fd_set rfds nfds \<inter> left_exc w;
          avail_fds = select_ret w
      in if avail_fds = - 1 \<and> select_errno w = EINTR p then (Continue, rfds, [])
         else if avail_fds \<noteq> - 1 \<and> avail_fds = 0
         then (Break, rfds, [Error ''should not happen: select returned 0 (timeout)''])
         else
           case (if avail_fds = - 1
                 then (case select_failed p rfds_exc 0 (blocks bar) rfds of
                         (rfds, es) \<Rightarrow> (rfds, Errorx ''select'' # es))
                 else (rfds, [])) of
             (rfds, es1) \<Rightarrow>
               (case signal_part p sfd w rfds_read avail_fds of
                  (Break, avail_fds, es2) \<Rightarrow> (Break, rfds, es1 @ es2)
                | (Continue, avail_fds, es2) \<Rightarrow>
                    if avail_fds = 0 then (Continue, rfds, es1 @ es2)
                    else (Continue, rfds, es1 @ es2 @ sweep p bar rfds_read)))"

text \<open>
  The loop, fed with what the system delivers at each pass. \<open>Continue\<close> at the end of the
  list: the loop is still waiting in \<^verbatim>\<open>select\<close>.
\<close>

fun reactor ::
  "platform \<Rightarrow> bar \<Rightarrow> int \<Rightarrow> int \<Rightarrow> wake list \<Rightarrow> int set \<Rightarrow> flow \<times> int set \<times> event list" where
  "reactor p bar sfd nfds [] rfds = (Continue, rfds, [])"
| "reactor p bar sfd nfds (w # ws) rfds =
     (case iteration p bar sfd nfds w rfds of
        (Break, rfds, es) \<Rightarrow> (Break, rfds, es)
      | (Continue, rfds, es) \<Rightarrow>
          (case reactor p bar sfd nfds ws rfds of
             (fl, rfds, es') \<Rightarrow> (fl, rfds, es @ es')))"

text \<open>
  \<^verbatim>\<open>while (waitpid(-1, NULL, 0) > 0) continue;\<close> on the list of the children of the
  process that are not reaped yet: a call reaps the first child that ends and returns its
  process id, or returns \<open>-1\<close> when the process has no child. The function returns the
  children that are left and the calls made, each with its return value.
\<close>

fun reap :: "int list \<Rightarrow> int list \<times> event list" where
  "reap [] = ([], [Sys_waitpid (- 1)])"
| "reap (pid # kids) =
     (if pid > 0 then (case reap kids of (left, es) \<Rightarrow> (left, Sys_waitpid pid # es))
      else (kids, [Sys_waitpid pid]))"

text \<open>
  The end of \<^verbatim>\<open>sched_start\<close>, after the loop. \<open>unblock_ret\<close> is what \<^verbatim>\<open>sigprocmask\<close>
  returns.
\<close>

definition shutdown :: "int \<Rightarrow> int list \<Rightarrow> state \<Rightarrow> state \<times> int list" where
  "shutdown unblock_ret kids st =
     (let st = (if unblock_ret = - 1
                then emit [Sys_sigprocmask SIG_UNBLOCK (sigset st), Errorx ''sigprocmask''] st
                else emit [Sys_sigprocmask SIG_UNBLOCK (sigset st)]
                       (st\<lparr>sigmask := sigmask st - sigset st\<rparr>))
      in case reap kids of
           (left, es) \<Rightarrow> (emit (es @ [Debug ''quit scheduling'']) st, left))"

text \<open>
  \<^verbatim>\<open>sched_start\<close>. \<open>ws\<close> is what the system delivers to the passes of the loop and \<open>kids\<close>
  the children that are not reaped when the loop is left (the block module spawns and
  reaps them). The outcome is \<open>Undefined\<close> when building the wait set runs into undefined
  behaviour, \<open>Waiting\<close> when the loop has not been left after \<open>ws\<close>, and otherwise
  \<open>Returned\<close> with the state and the children left when the function returns.
\<close>

datatype outcome = Undefined fault | Waiting | Returned state "int list"

definition sched_start ::
  "platform \<Rightarrow> bar \<Rightarrow> wake list \<Rightarrow> int \<Rightarrow> int list \<Rightarrow> state \<Rightarrow> outcome" where
  "sched_start p bar ws unblock_ret kids st =
     (let st = emit [Json_print_bar, Bar_poll_timed] st in
      case build_wait_set p (sigfd st) bar of
        Inl e \<Rightarrow> Undefined e
      | Inr (rfds, nfds) \<Rightarrow>
          (case reactor p bar (sigfd st) nfds ws rfds of
             (Continue, rfds, es) \<Rightarrow> Waiting
           | (Break, rfds, es) \<Rightarrow>
               (case shutdown unblock_ret kids (emit es st) of
                  (st, left) \<Rightarrow> Returned st left)))"

subsection \<open>Notions for the statements\<close>

text \<open>
  A block is faulty for an exception set when it streams (\<^verbatim>\<open>INTER_BLOCKING\<close>) and one of
  its descriptors is in the set; \<open>broken_fds\<close> are the descriptors of the faulty blocks
  and \<open>broken_events\<close> the two calls made for each of them. \<open>ready_flags\<close> is the third
  argument of \<^verbatim>\<open>block_read_std\<close> in the sweep, \<open>data_reads\<close> the calls of the sweep.
\<close>

definition faulty :: "platform \<Rightarrow> int set \<Rightarrow> block \<Rightarrow> bool" where
  "faulty p rfds_exc b \<longleftrightarrow>
     interval b = INTER_BLOCKING p \<and> (out b \<in> rfds_exc \<or> err b \<in> rfds_exc)"

definition broken_fds :: "platform \<Rightarrow> int set \<Rightarrow> block list \<Rightarrow> int set" where
  "broken_fds p rfds_exc bs = set (concat (map (\<lambda>b. [out b, err b]) (filter (faulty p rfds_exc) bs)))"

definition broken_events :: "platform \<Rightarrow> int set \<Rightarrow> nat \<Rightarrow> block list \<Rightarrow> event list" where
  "broken_events p rfds_exc i bs =
     concat (map (\<lambda>(j, b). [Berror j ''broken stdout/err'', Block_read_std j 1 0])
               (filter (\<lambda>(j, b). faulty p rfds_exc b) (enumerate i bs)))"

definition ready_flags :: "platform \<Rightarrow> int set \<Rightarrow> block \<Rightarrow> int" where
  "ready_flags p rfds_read b =
     (if out b \<in> rfds_read then READY_STDOUT p else 0) OR
     (if err b \<in> rfds_read then READY_STDERR p else 0)"

definition has_data :: "platform \<Rightarrow> int set \<Rightarrow> block \<Rightarrow> bool" where
  "has_data p rfds_read b \<longleftrightarrow> interval b = INTER_BLOCKING p \<and> ready_flags p rfds_read b \<noteq> 0"

definition data_reads :: "platform \<Rightarrow> int set \<Rightarrow> nat \<Rightarrow> block list \<Rightarrow> event list" where
  "data_reads p rfds_read i bs =
     map (\<lambda>(j, b). Block_read_std j 0 (ready_flags p rfds_read b))
       (filter (\<lambda>(j, b). has_data p rfds_read b) (enumerate i bs))"

text \<open>
  The sets \<^verbatim>\<open>rfds_read\<close> and \<^verbatim>\<open>rfds_exc\<close> of a pass after \<^verbatim>\<open>select\<close>, and the events
  and the wait set after the handling of a failed \<^verbatim>\<open>select\<close>.
\<close>

definition rfds_read_of :: "int \<Rightarrow> wake \<Rightarrow> int set \<Rightarrow> int set" where
  "rfds_read_of nfds w rfds = copy_fd_set rfds nfds \<inter> left_read w"

definition rfds_exc_of :: "int \<Rightarrow> wake \<Rightarrow> int set \<Rightarrow> int set" where
  "rfds_exc_of nfds w rfds = copy_fd_set rfds nfds \<inter> left_exc w"

definition failure_events :: "platform \<Rightarrow> bar \<Rightarrow> int \<Rightarrow> wake \<Rightarrow> int set \<Rightarrow> event list" where
  "failure_events p bar nfds w rfds =
     (if select_ret w = - 1
      then Errorx ''select'' # broken_events p (rfds_exc_of nfds w rfds) 0 (blocks bar)
      else [])"

definition after_failure :: "platform \<Rightarrow> bar \<Rightarrow> int \<Rightarrow> wake \<Rightarrow> int set \<Rightarrow> int set" where
  "after_failure p bar nfds w rfds =
     (if select_ret w = - 1
      then rfds - broken_fds p (rfds_exc_of nfds w rfds) (blocks bar)
      else rfds)"

text \<open>
  What POSIX says of a \<^verbatim>\<open>select\<close> that fails: the descriptor sets are not modified, so
  every descriptor passed in is still in the read set and in the exception set.
\<close>

definition posix_failure :: "int \<Rightarrow> wake \<Rightarrow> int set \<Rightarrow> bool" where
  "posix_failure nfds w rfds \<longleftrightarrow>
     select_ret w = - 1 \<and> copy_fd_set rfds nfds \<subseteq> left_read w \<and>
     copy_fd_set rfds nfds \<subseteq> left_exc w"

text \<open>
  The three ways out of the loop are \<open>select_ret w = 0\<close>, \<open>short_read\<close> and
  \<open>termination_signal\<close>; \<open>interrupted\<close> is the \<^verbatim>\<open>EINTR\<close> case.
\<close>

definition interrupted :: "platform \<Rightarrow> wake \<Rightarrow> bool" where
  "interrupted p w \<longleftrightarrow> select_ret w = - 1 \<and> select_errno w = EINTR p"

definition short_read :: "platform \<Rightarrow> int \<Rightarrow> int \<Rightarrow> wake \<Rightarrow> int set \<Rightarrow> bool" where
  "short_read p sfd nfds w rfds \<longleftrightarrow>
     \<not> interrupted p w \<and> select_ret w \<noteq> 0 \<and>
     sfd \<in> copy_fd_set rfds nfds \<inter> left_read w \<and> read_ret w \<noteq> siginfo_size p"

definition termination_signal :: "platform \<Rightarrow> int \<Rightarrow> int \<Rightarrow> wake \<Rightarrow> int set \<Rightarrow> bool" where
  "termination_signal p sfd nfds w rfds \<longleftrightarrow>
     \<not> interrupted p w \<and> select_ret w \<noteq> 0 \<and>
     sfd \<in> copy_fd_set rfds nfds \<inter> left_read w \<and> read_ret w = siginfo_size p \<and>
     (ssi_signo w = SIGTERM p \<or> ssi_signo w = SIGINT p)"

definition exit_cause :: "platform \<Rightarrow> int \<Rightarrow> int \<Rightarrow> wake \<Rightarrow> int set \<Rightarrow> bool" where
  "exit_cause p sfd nfds w rfds \<longleftrightarrow>
     select_ret w = 0 \<or> short_read p sfd nfds w rfds \<or> termination_signal p sfd nfds w rfds"

text \<open>
  The descriptors of the streaming blocks, the condition that they and the signal
  descriptor fit an \<^verbatim>\<open>fd_set\<close>, and a bar cut down to its streaming blocks.
\<close>

definition streaming_fds :: "platform \<Rightarrow> block list \<Rightarrow> int set" where
  "streaming_fds p bs =
     set (concat (map (\<lambda>b. [out b, err b]) (filter (\<lambda>b. interval b = INTER_BLOCKING p) bs)))"

definition fds_in_range :: "platform \<Rightarrow> int \<Rightarrow> bar \<Rightarrow> bool" where
  "fds_in_range p sfd bar \<longleftrightarrow>
     (\<forall>fd \<in> insert sfd (streaming_fds p (blocks bar)). 0 \<le> fd \<and> fd < FD_SETSIZE p)"

definition streaming_only :: "platform \<Rightarrow> bar \<Rightarrow> bar" where
  "streaming_only p bar = bar\<lparr>blocks := filter (\<lambda>b. interval b = INTER_BLOCKING p) (blocks bar)\<rparr>"

text \<open>
  The signals \<^verbatim>\<open>setup_signals\<close> adds, the debug lines of its loop, and the condition that
  every system call of \<^verbatim>\<open>setup_signals\<close> succeeds.
\<close>

definition gate_signals :: "platform \<Rightarrow> int set" where
  "gate_signals p = set (standard_signals p) \<union> set [SIGRTMIN p + 1..SIGRTMAX p]"

definition provide_log :: "platform \<Rightarrow> event list" where
  "provide_log p =
     replicate (length [SIGRTMIN p + 1..SIGRTMAX p]) (Debug ''provide signal %d (%s)'')"

definition gate_ok :: "platform \<Rightarrow> answers \<Rightarrow> bool" where
  "gate_ok p y \<longleftrightarrow>
     sigemptyset_ret y \<noteq> - 1 \<and> list_all (\<lambda>s. sigaddset_ret y s \<noteq> - 1) (standard_signals p) \<and>
     list_all (\<lambda>s. sigaddset_ret y s \<noteq> - 1) [SIGRTMIN p + 1..SIGRTMAX p] \<and>
     signalfd_ret y \<noteq> - 1 \<and> sigprocmask_ret y \<noteq> - 1"

subsection \<open>Concrete inputs\<close>

text \<open>
  The numbers of Linux on x86 and ARM with glibc; \<^verbatim>\<open>INTER_BLOCKING\<close> and the ready flags
  are sample values. The sample bar \<open>demo_bar\<close> has a block with a period of 5 seconds,
  two streaming blocks with descriptors 5, 6 and 7, 8, and a block with a negative
  interval that is not \<^verbatim>\<open>INTER_BLOCKING\<close>; the signal descriptor is 3. \<open>w_ebadf\<close> is a
  \<^verbatim>\<open>select\<close> that fails with \<^verbatim>\<open>EBADF\<close> and leaves its sets as they were, followed by the
  read of a \<^verbatim>\<open>SIGALRM\<close> record. \<open>bar_fd_1024\<close> has a streaming block whose descriptors
  do not fit an \<^verbatim>\<open>fd_set\<close> of 1024 bits.
\<close>

definition linux :: platform where
  "linux = \<lparr>SIGTERM = 15, SIGINT = 2, SIGALRM = 14, SIGCHLD = 17, SIGUSR1 = 10, SIGUSR2 = 12,
            SIGIO = 29, SIGRTMIN = 34, SIGRTMAX = 64, EINTR = 4, siginfo_size = 128,
            FD_SETSIZE = 1024,
            INTER_BLOCKING = - 3, READY_STDOUT = 1, READY_STDERR = 2\<rparr>"

definition all_ok :: answers where
  "all_ok = \<lparr>sigemptyset_ret = 0, sigaddset_ret = (\<lambda>_. 0), signalfd_ret = 3,
             sigprocmask_ret = 0, setitimer_ret = 0, isatty_ret = 0,
             fcntl_setown_ret = 0, fcntl_setfl_ret = 0\<rparr>"

definition no_signalfd :: answers where
  "no_signalfd = all_ok\<lparr>signalfd_ret := - 1\<rparr>"

definition fresh :: state where
  "fresh = \<lparr>sigset = {}, sigfd = 0, sigmask = {}, itimer = None, log = []\<rparr>"

definition ready :: state where
  "ready = \<lparr>sigset = {2, 15}, sigfd = 3, sigmask = {2, 15, 20}, itimer = None, log = []\<rparr>"

definition bar_4_once_6 :: bar where
  "bar_4_once_6 =
     \<lparr>blocks = [\<lparr>interval = 4, out = 0, err = 0\<rparr>,
                \<lparr>interval = - 1, out = 0, err = 0\<rparr>,
                \<lparr>interval = 0, out = 0, err = 0\<rparr>,
                \<lparr>interval = 6, out = 0, err = 0\<rparr>]\<rparr>"

definition bar_once :: bar where
  "bar_once = \<lparr>blocks = [\<lparr>interval = - 1, out = 0, err = 0\<rparr>]\<rparr>"

definition demo_bar :: bar where
  "demo_bar =
     \<lparr>blocks = [\<lparr>interval = 5, out = 0, err = 0\<rparr>,
                \<lparr>interval = - 3, out = 5, err = 6\<rparr>,
                \<lparr>interval = - 3, out = 7, err = 8\<rparr>,
                \<lparr>interval = - 1, out = 0, err = 0\<rparr>]\<rparr>"

definition bar_fd_1024 :: bar where
  "bar_fd_1024 = \<lparr>blocks = [\<lparr>interval = - 3, out = 1024, err = 1025\<rparr>]\<rparr>"

definition w_alrm :: wake where
  "w_alrm = \<lparr>select_ret = 1, select_errno = 0, left_read = {3}, left_exc = {},
             read_ret = 128, ssi_signo = 14\<rparr>"

definition w_data :: wake where
  "w_data = \<lparr>select_ret = 2, select_errno = 0, left_read = {5, 8}, left_exc = {},
             read_ret = 0, ssi_signo = 0\<rparr>"

definition w_chld_data :: wake where
  "w_chld_data = \<lparr>select_ret = 2, select_errno = 0, left_read = {3, 5}, left_exc = {},
                  read_ret = 128, ssi_signo = 17\<rparr>"

definition w_rt :: wake where
  "w_rt = \<lparr>select_ret = 1, select_errno = 0, left_read = {3}, left_exc = {},
           read_ret = 128, ssi_signo = 44\<rparr>"

definition w_term :: wake where
  "w_term = \<lparr>select_ret = 1, select_errno = 0, left_read = {3}, left_exc = {},
             read_ret = 128, ssi_signo = 15\<rparr>"

definition w_zero :: wake where
  "w_zero = \<lparr>select_ret = 0, select_errno = 0, left_read = {}, left_exc = {},
             read_ret = 0, ssi_signo = 0\<rparr>"

definition w_short :: wake where
  "w_short = \<lparr>select_ret = 1, select_errno = 0, left_read = {3}, left_exc = {},
              read_ret = - 1, ssi_signo = 0\<rparr>"

definition w_ebadf :: wake where
  "w_ebadf = \<lparr>select_ret = - 1, select_errno = 9, left_read = {3, 5, 6, 7, 8},
              left_exc = {3, 5, 6, 7, 8}, read_ret = 128, ssi_signo = 14\<rparr>"

subsection \<open>Termination and correctness of the reducer\<close>

lemma smod_abs_less: "b \<noteq> 0 \<Longrightarrow> \<bar>(a::int) smod b\<bar> < \<bar>b\<bar>"
  using smod_int_range [of b a] by auto

lemma sint_cint_bounds: "- (2 ^ 31) \<le> sint (w::cint) \<and> sint w < 2 ^ 31"
  using sint_ge [of w] sint_lt [of w] by simp

lemma sint_c_rem:
  assumes "b \<noteq> 0"
  shows "sint (c_rem a b) = sint a smod sint b"
proof -
  have nz: "sint b \<noteq> 0" using assms by (simp add: signed_eq_0_iff)
  have "\<bar>sint a smod sint b\<bar> < \<bar>sint b\<bar>" by (rule smod_abs_less [OF nz])
  moreover have "\<bar>sint b\<bar> \<le> 2 ^ 31" using sint_cint_bounds [of b] by linarith
  ultimately have "- (2 ^ 31) \<le> sint a smod sint b \<and> sint a smod sint b < 2 ^ 31"
    by linarith
  then show ?thesis
    by (simp add: c_rem_def sint_sbintrunc' signed_take_bit_int_eq_self)
qed

termination gcd_c
  apply (relation "measure (\<lambda>(a, b). nat \<bar>sint b\<bar>)")
   apply simp
  apply (simp add: ac_simps sint_c_rem smod_abs_less signed_eq_0_iff)
  done

declare gcd_c.simps [simp del]

lemma gcd_c_step: "b \<noteq> 0 \<Longrightarrow> gcd_c a b = gcd_c b (c_rem a b)"
  by (subst gcd_c.simps) (simp add: Let_def ac_simps)

lemma gcd_c_zero: "gcd_c a 0 = a"
  by (subst gcd_c.simps) simp

lemma sint_gcd_c:
  "0 \<le> sint a \<Longrightarrow> 0 \<le> sint b \<Longrightarrow> sint (gcd_c a b) = gcd (sint a) (sint b)"
proof (induction "nat (sint b)" arbitrary: a b rule: less_induct)
  case less
  show ?case
  proof (cases "b = 0")
    case True
    with less.prems show ?thesis by (simp add: gcd_c_zero)
  next
    case False
    then have pos: "0 < sint b"
      using less.prems by (simp add: signed_eq_0_iff order_less_le)
    have rem: "sint (c_rem a b) = sint a mod sint b"
      using False pos less.prems by (simp add: sint_c_rem smod_int_alt_def sgn_if)
    have nn: "0 \<le> sint (c_rem a b)" and lt: "sint (c_rem a b) < sint b"
      using pos rem by simp_all
    have "sint (gcd_c b (c_rem a b)) = gcd (sint b) (sint (c_rem a b))"
      using nn lt pos by (intro less.hyps) simp_all
    then show ?thesis
      using False
      by (simp add: gcd_c_step rem gcd.commute [of "sint a"] gcd_red_int [symmetric])
  qed
qed

lemma uint_of_nonneg_sint: "0 \<le> sint (w::cint) \<Longrightarrow> uint w = sint w"
proof -
  assume nn: "0 \<le> sint w"
  have "uint w = uint (word_of_int (sint w) :: cint)" by simp
  also have "\<dots> = take_bit 32 (sint w)" by (simp only: uint_word_of_int_eq) simp
  also have "\<dots> = sint w"
    using nn sint_cint_bounds [of w] by (intro take_bit_int_eq_self) simp_all
  finally show ?thesis .
qed

lemma fold_gcd_step:
  "0 \<le> sint t \<Longrightarrow>
   0 \<le> sint (fold gcd_step bs t) \<and>
   sint (fold gcd_step bs t) = Gcd (insert (sint t) (set (positive_intervals \<lparr>blocks = bs\<rparr>)))"
proof (induction bs arbitrary: t)
  case Nil
  then show ?case by (simp add: positive_intervals_def)
next
  case (Cons b bs)
  have nn: "0 \<le> sint (gcd_step b t)"
    using Cons.prems by (simp add: gcd_step_def sint_gcd_c)
  show ?case
  proof (cases "0 < sint (interval b)")
    case True
    then have "sint (gcd_step b t) = gcd (sint t) (sint (interval b))"
      using Cons.prems by (simp add: gcd_step_def sint_gcd_c)
    with Cons.IH [OF nn] True show ?thesis
      by (simp add: positive_intervals_def gcd.assoc)
  next
    case False
    with Cons.IH [OF nn] show ?thesis
      by (simp add: positive_intervals_def gcd_step_def)
  qed
qed

lemma sint_longest_sleep:
  "0 \<le> sint (longest_sleep bar) \<and>
   sint (longest_sleep bar) = Gcd (set (positive_intervals bar))"
proof (cases "blocks bar")
  case Nil
  then show ?thesis by (simp add: longest_sleep_def num_def positive_intervals_def)
next
  case (Cons b bs)
  define t where "t = (if 0 < sint (interval b) then interval b else 0)"
  have nn: "0 \<le> sint t" by (simp add: t_def)
  have ls: "longest_sleep bar = fold gcd_step bs t"
    using Cons by (cases bs) (simp_all add: longest_sleep_def num_def t_def)
  have pi: "insert (sint t) (set (positive_intervals \<lparr>blocks = bs\<rparr>)) =
            (if 0 < sint (interval b) then set (positive_intervals bar)
             else insert 0 (set (positive_intervals bar)))"
    using Cons by (simp add: positive_intervals_def t_def)
  show ?thesis
    using fold_gcd_step [OF nn, of bs] by (simp add: ls pi)
qed

lemma uint_longest_sleep: "uint (longest_sleep bar) = Gcd (set (positive_intervals bar))"
  using sint_longest_sleep [of bar] by (simp add: uint_of_nonneg_sint)

lemma positive_intervals_pos: "p \<in> set (positive_intervals bar) \<Longrightarrow> 0 < p"
  by (auto simp: positive_intervals_def)

text \<open>
  C1. For every bar, \<^verbatim>\<open>longest_sleep\<close> returns the greatest common divisor of the strictly
  positive block intervals: the result divides every positive interval, every common
  divisor of the positive intervals is at most the result (when there is a positive
  interval), and the result is 0 when no block has a strictly positive interval. Zero and
  negative (sentinel) intervals do not enter the result.
\<close>

theorem longest_sleep_gcd:
  "uint (longest_sleep bar) = Gcd (set (positive_intervals bar)) \<and>
   (\<forall>p \<in> set (positive_intervals bar). uint (longest_sleep bar) dvd p) \<and>
   (\<forall>d. positive_intervals bar \<noteq> [] \<and> (\<forall>p \<in> set (positive_intervals bar). d dvd p)
        \<longrightarrow> d \<le> uint (longest_sleep bar)) \<and>
   (positive_intervals bar = [] \<longrightarrow> longest_sleep bar = 0)"
proof (intro conjI allI impI ballI)
  show eq: "uint (longest_sleep bar) = Gcd (set (positive_intervals bar))"
    by (rule uint_longest_sleep)
  show "uint (longest_sleep bar) dvd p" if "p \<in> set (positive_intervals bar)" for p
    using that by (simp add: eq)
  show "d \<le> uint (longest_sleep bar)"
    if h: "positive_intervals bar \<noteq> [] \<and> (\<forall>p \<in> set (positive_intervals bar). d dvd p)" for d
  proof -
    from h obtain p where p: "p \<in> set (positive_intervals bar)"
      by (cases "positive_intervals bar") auto
    have "Gcd (set (positive_intervals bar)) dvd p" using p by simp
    moreover have "0 < p" using p by (rule positive_intervals_pos)
    ultimately have "Gcd (set (positive_intervals bar)) \<noteq> 0"
      by (metis dvd_0_left less_irrefl)
    then have pos: "0 < Gcd (set (positive_intervals bar))"
      using Gcd_int_greater_eq_0 [of "set (positive_intervals bar)"] by linarith
    have "d dvd Gcd (set (positive_intervals bar))"
      using h by (intro Gcd_greatest) simp
    then have "d \<le> Gcd (set (positive_intervals bar))"
      using pos by (rule zdvd_imp_le)
    then show ?thesis by (simp add: eq)
  qed
  show "longest_sleep bar = 0" if "positive_intervals bar = []"
  proof -
    have "uint (longest_sleep bar) = 0" using that by (simp add: uint_longest_sleep)
    then show ?thesis by (simp add: unsigned_eq_0_iff)
  qed
qed

theorem longest_sleep_gcd_witness:
  "positive_intervals bar_4_once_6 = [4, 6] \<and>
   uint (longest_sleep bar_4_once_6) = 2 \<and>
   uint (longest_sleep bar_4_once_6) dvd 4 \<and>
   uint (longest_sleep bar_4_once_6) dvd 6 \<and>
   (3::int) dvd 3 \<and> \<not> (3::int) dvd 4"
proof -
  have pi: "positive_intervals bar_4_once_6 = [4, 6]"
    by (simp add: positive_intervals_def bar_4_once_6_def)
  have "gcd (4::int) 6 = 2" by code_simp
  then have "Gcd (set [4, 6 :: int]) = 2" by simp
  then show ?thesis
    using longest_sleep_gcd [of bar_4_once_6] by (simp add: pi)
qed

subsection \<open>The parts of the reactor\<close>

lemma fold_copy: "fold (\<lambda>i dest. if i \<in> S then insert i dest else dest) xs D = D \<union> (S \<inter> set xs)"
  by (induction xs arbitrary: D) auto

lemma copy_fd_set_eq: "copy_fd_set source nfds = {i \<in> source. 0 \<le> i \<and> i < nfds}"
  by (auto simp: copy_fd_set_def fold_copy)

lemma copy_fd_set_subset: "copy_fd_set source nfds \<subseteq> source"
  by (auto simp: copy_fd_set_eq)

lemma select_failed_eq:
  "select_failed p rfds_exc i bs rfds =
     (rfds - broken_fds p rfds_exc bs, broken_events p rfds_exc i bs)"
proof (induction bs arbitrary: i rfds)
  case Nil
  show ?case by (simp add: broken_fds_def broken_events_def)
next
  case (Cons b bs)
  show ?case
    by (auto simp: Cons.IH broken_fds_def broken_events_def faulty_def)
qed

lemma sweep_blocks_eq:
  "sweep_blocks p rfds_read i bs updated =
     (updated \<or> data_reads p rfds_read i bs \<noteq> [], data_reads p rfds_read i bs)"
proof (induction bs arbitrary: i updated)
  case Nil
  show ?case by (simp add: data_reads_def)
next
  case (Cons b bs)
  show ?case
    by (simp add: Cons.IH data_reads_def has_data_def ready_flags_def Let_def)
qed

lemma sweep_eq:
  "sweep p bar rfds_read =
     data_reads p rfds_read 0 (blocks bar) @
     (if data_reads p rfds_read 0 (blocks bar) \<noteq> [] then [Json_print_bar] else [])"
  by (simp add: sweep_def sweep_blocks_eq)

lemma reap_positive:
  "\<forall>pid \<in> set kids. 0 < pid \<Longrightarrow> reap kids = ([], map Sys_waitpid kids @ [Sys_waitpid (- 1)])"
  by (induction kids) auto

lemma fst_dispatch: "fst (dispatch p sig) = Break \<longleftrightarrow> sig = SIGTERM p \<or> sig = SIGINT p"
  by (simp add: dispatch_def)

lemma fst_signal_part:
  "fst (signal_part p sfd w rfds_read avail) = Break \<longleftrightarrow>
     sfd \<in> rfds_read \<and>
     (read_ret w \<noteq> siginfo_size p \<or> ssi_signo w = SIGTERM p \<or> ssi_signo w = SIGINT p)"
  by (auto simp: signal_part_def Let_def fst_dispatch [symmetric] split: prod.splits)

lemma iteration_Break_iff:
  "fst (iteration p bar sfd nfds w rfds) = Break \<longleftrightarrow> exit_cause p sfd nfds w rfds"
proof -
  let ?rd = "copy_fd_set rfds nfds \<inter> left_read w"
  obtain fl a es where sp: "signal_part p sfd w ?rd (select_ret w) = (fl, a, es)"
    by (cases "signal_part p sfd w ?rd (select_ret w)")
  have "fl = Break \<longleftrightarrow> sfd \<in> ?rd \<and>
     (read_ret w \<noteq> siginfo_size p \<or> ssi_signo w = SIGTERM p \<or> ssi_signo w = SIGINT p)"
    using fst_signal_part [of p sfd w ?rd "select_ret w"] by (simp add: sp)
  then show ?thesis
    by (cases fl)
      (auto simp: iteration_def Let_def sp exit_cause_def short_read_def termination_signal_def
        interrupted_def split: prod.splits)
qed

lemma iteration_rfds:
  "fst (snd (iteration p bar sfd nfds w rfds)) =
     (if select_ret w = - 1 \<and> select_errno w \<noteq> EINTR p
      then rfds - broken_fds p (copy_fd_set rfds nfds \<inter> left_exc w) (blocks bar)
      else rfds)"
  by (auto simp: iteration_def Let_def select_failed_eq split: prod.splits flow.splits)

lemma iteration_subset: "fst (snd (iteration p bar sfd nfds w rfds)) \<subseteq> rfds"
  by (auto simp: iteration_rfds)

lemma reactor_subset: "fst (snd (reactor p bar sfd nfds ws rfds)) \<subseteq> rfds"
proof (induction ws arbitrary: rfds)
  case Nil
  show ?case by simp
next
  case (Cons w ws)
  obtain fl r es where it: "iteration p bar sfd nfds w rfds = (fl, r, es)"
    by (cases "iteration p bar sfd nfds w rfds")
  have r: "r \<subseteq> rfds" using iteration_subset [of p bar sfd nfds w rfds] by (simp add: it)
  show ?case
  proof (cases fl)
    case Break
    then show ?thesis using r by (simp add: it)
  next
    case Continue
    then show ?thesis
      using r Cons.IH [of r] by (auto simp: it split: prod.splits)
  qed
qed

lemma reactor_snoc:
  "reactor p bar sfd nfds ws rfds = (Continue, rfds1, es) \<Longrightarrow>
   reactor p bar sfd nfds (ws @ [w]) rfds =
     (case iteration p bar sfd nfds w rfds1 of (fl, r, es') \<Rightarrow> (fl, r, es @ es'))"
proof (induction ws arbitrary: rfds es)
  case Nil
  then show ?case by (auto split: prod.splits flow.splits)
next
  case (Cons a ws)
  then show ?case
    by (auto split: prod.splits flow.splits)
qed

subsection \<open>The wait set\<close>

lemma ADD_FD_eq:
  "ADD_FD p fd (rfds, nfds) =
     (if 0 \<le> fd \<and> fd < FD_SETSIZE p then Inr (insert fd rfds, if fd > nfds then fd else nfds)
      else Inl (Fd_out_of_range fd))"
  by (simp add: ADD_FD_def FD_SET_def)

lemma demo_wait_set: "build_wait_set linux 3 demo_bar = Inr ({3, 5, 6, 7, 8}, 9)"
  by (simp add: build_wait_set_def demo_bar_def linux_def ADD_FD_eq insert_commute)

subsection \<open>The shutdown sequence\<close>

text \<open>
  C2. When the loop is left (by a wait that returns zero, by a short read of the signal
  record or by a termination signal), \<^verbatim>\<open>sched_start\<close> calls \<^verbatim>\<open>sigprocmask\<close> to
  unblock the whole signal set and then \<^verbatim>\<open>waitpid\<close> once for each child that is not
  reaped and once more, which returns \<open>-1\<close>; it returns with no child left, for any
  number of children.
\<close>

theorem shutdown_on_every_exit:
  assumes pos: "\<forall>pid \<in> set kids. 0 < pid"
    and ws: "build_wait_set p (sigfd st) bar = Inr (rfds, nfds)"
    and run: "reactor p bar (sigfd st) nfds ws rfds = (Continue, rfds1, es)"
    and ex: "exit_cause p (sigfd st) nfds w rfds1"
  shows "\<exists>st' es'. sched_start p bar (ws @ [w]) unblock_ret kids st = Returned st' [] \<and>
           log st' = log st @ [Json_print_bar, Bar_poll_timed] @ es @ es' @
             Sys_sigprocmask SIG_UNBLOCK (sigset st) #
             (if unblock_ret = - 1 then [Errorx ''sigprocmask''] else []) @
             map Sys_waitpid kids @ [Sys_waitpid (- 1), Debug ''quit scheduling''] \<and>
           (unblock_ret \<noteq> - 1 \<longrightarrow> sigmask st' = sigmask st - sigset st)"
proof -
  obtain fl r es' where it: "iteration p bar (sigfd st) nfds w rfds1 = (fl, r, es')"
    by (cases "iteration p bar (sigfd st) nfds w rfds1")
  have "fl = Break"
    using ex iteration_Break_iff [of p bar "sigfd st" nfds w rfds1] by (simp add: it)
  then have "reactor p bar (sigfd st) nfds (ws @ [w]) rfds = (Break, r, es @ es')"
    using reactor_snoc [OF run, of w] by (simp add: it)
  then show ?thesis
    using pos by (simp add: sched_start_def ws shutdown_def emit_def reap_positive Let_def)
qed

lemma demo_run:
  "reactor linux demo_bar 3 9 [w_data] {3, 5, 6, 7, 8} =
     (Continue, {3, 5, 6, 7, 8}, [Block_read_std 1 0 1, Block_read_std 2 0 2, Json_print_bar])"
  by code_simp

theorem shutdown_on_every_exit_witness:
  "\<exists>st' es'. sched_start linux demo_bar [w_data, w_term] 0 [101, 102] ready = Returned st' [] \<and>
     log st' = [Json_print_bar, Bar_poll_timed,
       Block_read_std 1 0 1, Block_read_std 2 0 2, Json_print_bar] @ es' @
       [Sys_sigprocmask SIG_UNBLOCK {2, 15}, Sys_waitpid 101, Sys_waitpid 102,
        Sys_waitpid (- 1), Debug ''quit scheduling''] \<and>
     sigmask st' = {20}"
proof -
  have pos: "\<forall>pid \<in> set [101, 102 :: int]. 0 < pid" by simp
  have sf: "sigfd ready = 3" by (simp add: ready_def)
  have ws: "build_wait_set linux (sigfd ready) demo_bar = Inr ({3, 5, 6, 7, 8}, 9)"
    by (simp only: sf demo_wait_set)
  have run: "reactor linux demo_bar (sigfd ready) 9 [w_data] {3, 5, 6, 7, 8} =
     (Continue, {3, 5, 6, 7, 8}, [Block_read_std 1 0 1, Block_read_std 2 0 2, Json_print_bar])"
    by (simp only: sf demo_run)
  have ex: "exit_cause linux (sigfd ready) 9 w_term {3, 5, 6, 7, 8}"
    by code_simp
  have "sigset ready = {2, 15}" "sigmask ready - sigset ready = {20}" "log ready = []"
    by (simp_all add: ready_def)
  then show ?thesis
    using shutdown_on_every_exit [OF pos ws run ex, of 0] by simp
qed

subsection \<open>Fatal conditions in the loop\<close>

lemma iteration_eq:
  assumes "\<not> interrupted p w" and "select_ret w \<noteq> 0"
  shows "iteration p bar sfd nfds w rfds =
     (case signal_part p sfd w (rfds_read_of nfds w rfds) (select_ret w) of
        (fl, a, es2) \<Rightarrow>
          (fl, after_failure p bar nfds w rfds,
           failure_events p bar nfds w rfds @ es2 @
           (if fl = Continue \<and> a \<noteq> 0 then sweep p bar (rfds_read_of nfds w rfds) else [])))"
  using assms
  by (auto simp: iteration_def Let_def interrupted_def rfds_read_of_def rfds_exc_of_def
      failure_events_def after_failure_def select_failed_eq split: prod.splits flow.splits)

lemma signal_part_avail:
  "signal_part p sfd w rd a = (fl, a', es) \<Longrightarrow> a' = (if sfd \<in> rd then a - 1 else a)"
  by (auto simp: signal_part_def Let_def split: if_splits prod.splits)

lemma broken_events_nth:
  "i < length bs \<Longrightarrow> faulty p exc (bs ! i) \<Longrightarrow>
   \<exists>xs ys. broken_events p exc k bs =
     xs @ Berror (k + i) ''broken stdout/err'' # Block_read_std (k + i) 1 0 # ys"
proof -
  assume i: "i < length bs" and f: "faulty p exc (bs ! i)"
  let ?l = "enumerate k bs"
  have li: "i < length ?l" using i by simp
  have "?l = take i ?l @ (k + i, bs ! i) # drop (Suc i) ?l"
    using id_take_nth_drop [OF li] i by (simp add: nth_enumerate_eq)
  then have "broken_events p exc k bs =
      concat (map (\<lambda>(j, b). [Berror j ''broken stdout/err'', Block_read_std j 1 0])
               (filter (\<lambda>(j, b). faulty p exc b) (take i ?l @ (k + i, bs ! i) # drop (Suc i) ?l)))"
    by (simp add: broken_events_def)
  then show ?thesis using f by auto
qed

lemma data_reads_nth:
  "i < length bs \<Longrightarrow> has_data p rd (bs ! i) \<Longrightarrow>
   \<exists>xs ys. data_reads p rd k bs =
     xs @ Block_read_std (k + i) 0 (ready_flags p rd (bs ! i)) # ys"
proof -
  assume i: "i < length bs" and f: "has_data p rd (bs ! i)"
  let ?l = "enumerate k bs"
  have li: "i < length ?l" using i by simp
  have "?l = take i ?l @ (k + i, bs ! i) # drop (Suc i) ?l"
    using id_take_nth_drop [OF li] i by (simp add: nth_enumerate_eq)
  then have "data_reads p rd k bs =
      map (\<lambda>(j, b). Block_read_std j 0 (ready_flags p rd b))
        (filter (\<lambda>(j, b). has_data p rd b) (take i ?l @ (k + i, bs ! i) # drop (Suc i) ?l))"
    by (simp add: data_reads_def)
  then show ?thesis using f by auto
qed

lemma broken_fds_nth:
  "i < length bs \<Longrightarrow> faulty p exc (bs ! i) \<Longrightarrow>
   out (bs ! i) \<in> broken_fds p exc bs \<and> err (bs ! i) \<in> broken_fds p exc bs"
  using nth_mem [of i bs] by (force simp: broken_fds_def)

subsection \<open>A failed select\<close>

lemma not_in_copy: "fd \<notin> rfds \<Longrightarrow> fd \<notin> rfds_read_of nfds w rfds \<and> fd \<notin> rfds_exc_of nfds w rfds"
  using copy_fd_set_subset [of rfds nfds] by (auto simp: rfds_read_of_def rfds_exc_of_def)

lemma unwatched_block_silent:
  "out b \<notin> rfds \<Longrightarrow> err b \<notin> rfds \<Longrightarrow>
   \<not> faulty p (rfds_exc_of nfds w rfds) b \<and> \<not> has_data p (rfds_read_of nfds w rfds) b"
  using not_in_copy [of "out b" rfds nfds w] not_in_copy [of "err b" rfds nfds w]
  by (simp add: faulty_def has_data_def ready_flags_def)

lemma failed_iteration_eq:
  assumes fail: "select_ret w = - 1" and ne: "select_errno w \<noteq> EINTR p"
  shows "iteration p bar sfd nfds w rfds =
     (case signal_part p sfd w (rfds_read_of nfds w rfds) (- 1) of
        (fl, a, es2) \<Rightarrow>
          (fl, rfds - broken_fds p (rfds_exc_of nfds w rfds) (blocks bar),
           Errorx ''select'' # broken_events p (rfds_exc_of nfds w rfds) 0 (blocks bar) @ es2 @
           (if fl = Continue then sweep p bar (rfds_read_of nfds w rfds) else [])))"
proof -
  obtain fl a es2 where sp: "signal_part p sfd w (rfds_read_of nfds w rfds) (- 1) = (fl, a, es2)"
    by (cases "signal_part p sfd w (rfds_read_of nfds w rfds) (- 1)")
  have "a \<noteq> 0" using signal_part_avail [OF sp] by (simp split: if_splits)
  moreover have "\<not> interrupted p w" "select_ret w \<noteq> 0"
    using fail ne by (simp_all add: interrupted_def)
  ultimately show ?thesis
    using fail by (simp add: iteration_eq sp failure_events_def after_failure_def)
qed

text \<open>
  C10. After a \<^verbatim>\<open>select\<close> that fails with an error other than \<^verbatim>\<open>EINTR\<close>, the same pass
  goes on to the signal descriptor and, unless the signal part leaves the loop, to the
  sweep, with the read set as \<^verbatim>\<open>select\<close> left it. A streaming block that is faulty for
  the exception set and has a descriptor in that read set loses both its descriptors,
  gets \<^verbatim>\<open>block_read_std(block, 1, 0)\<close> and later in the same pass
  \<^verbatim>\<open>block_read_std(block, 0, flags)\<close>.
\<close>

theorem failed_select_falls_through:
  assumes fail: "select_ret w = - 1" and ne: "select_errno w \<noteq> EINTR p"
    and sp: "signal_part p sfd w (rfds_read_of nfds w rfds) (- 1) = (Continue, a, es2)"
    and i: "i < length (blocks bar)"
    and f: "faulty p (rfds_exc_of nfds w rfds) (blocks bar ! i)"
    and d: "has_data p (rfds_read_of nfds w rfds) (blocks bar ! i)"
  shows "iteration p bar sfd nfds w rfds =
           (Continue, rfds - broken_fds p (rfds_exc_of nfds w rfds) (blocks bar),
            Errorx ''select'' # broken_events p (rfds_exc_of nfds w rfds) 0 (blocks bar) @ es2 @
            sweep p bar (rfds_read_of nfds w rfds)) \<and>
         out (blocks bar ! i) \<notin> fst (snd (iteration p bar sfd nfds w rfds)) \<and>
         err (blocks bar ! i) \<notin> fst (snd (iteration p bar sfd nfds w rfds)) \<and>
         (\<exists>xs ys zs. snd (snd (iteration p bar sfd nfds w rfds)) =
            xs @ Berror i ''broken stdout/err'' # Block_read_std i 1 0 # ys @
            Block_read_std i 0 (ready_flags p (rfds_read_of nfds w rfds) (blocks bar ! i)) # zs)"
proof -
  let ?rd = "rfds_read_of nfds w rfds" and ?exc = "rfds_exc_of nfds w rfds"
  have it: "iteration p bar sfd nfds w rfds =
      (Continue, rfds - broken_fds p ?exc (blocks bar),
       Errorx ''select'' # broken_events p ?exc 0 (blocks bar) @ es2 @ sweep p bar ?rd)"
    by (simp add: failed_iteration_eq [OF fail ne] sp)
  obtain xs ys where be: "broken_events p ?exc 0 (blocks bar) =
      xs @ Berror i ''broken stdout/err'' # Block_read_std i 1 0 # ys"
    using broken_events_nth [OF i f, of 0] by auto
  obtain us vs where dr: "data_reads p ?rd 0 (blocks bar) =
      us @ Block_read_std i 0 (ready_flags p ?rd (blocks bar ! i)) # vs"
    using data_reads_nth [OF i d, of 0] by auto
  have "snd (snd (iteration p bar sfd nfds w rfds)) =
      (Errorx ''select'' # xs) @ Berror i ''broken stdout/err'' # Block_read_std i 1 0 #
      (ys @ es2 @ us) @ Block_read_std i 0 (ready_flags p ?rd (blocks bar ! i)) #
      (vs @ [Json_print_bar])"
    by (simp add: it be sweep_eq dr)
  then have ex: "\<exists>xs ys zs. snd (snd (iteration p bar sfd nfds w rfds)) =
            xs @ Berror i ''broken stdout/err'' # Block_read_std i 1 0 # ys @
            Block_read_std i 0 (ready_flags p ?rd (blocks bar ! i)) # zs"
    by blast
  show ?thesis
    using it ex broken_fds_nth [OF i f] by simp
qed

lemma demo_failed_pass:
  "iteration linux demo_bar 3 9 w_ebadf {3, 5, 6, 7, 8} =
     (Continue, {3},
      [Errorx ''select'',
       Berror 1 ''broken stdout/err'', Block_read_std 1 1 0,
       Berror 2 ''broken stdout/err'', Block_read_std 2 1 0,
       Debug ''received signal %d (%s)'', Bar_poll_outdated,
       Block_read_std 1 0 3, Block_read_std 2 0 3, Json_print_bar])"
  by code_simp

theorem failed_select_falls_through_witness:
  "iteration linux demo_bar 3 9 w_ebadf {3, 5, 6, 7, 8} =
     (Continue, {3},
      [Errorx ''select'',
       Berror 1 ''broken stdout/err'', Block_read_std 1 1 0,
       Berror 2 ''broken stdout/err'', Block_read_std 2 1 0,
       Debug ''received signal %d (%s)'', Bar_poll_outdated,
       Block_read_std 1 0 3, Block_read_std 2 0 3, Json_print_bar]) \<and>
   (\<exists>xs ys zs. snd (snd (iteration linux demo_bar 3 9 w_ebadf {3, 5, 6, 7, 8})) =
      xs @ Berror 1 ''broken stdout/err'' # Block_read_std 1 1 0 # ys @
      Block_read_std 1 0 3 # zs)"
proof -
  have fail: "select_ret w_ebadf = - 1" by (simp add: w_ebadf_def)
  have ne: "select_errno w_ebadf \<noteq> EINTR linux" by (simp add: w_ebadf_def linux_def)
  have sp: "signal_part linux 3 w_ebadf (rfds_read_of 9 w_ebadf {3, 5, 6, 7, 8}) (- 1) =
      (Continue, - 2, [Debug ''received signal %d (%s)'', Bar_poll_outdated])"
    by code_simp
  have i: "1 < length (blocks demo_bar)" by (simp add: demo_bar_def)
  have f: "faulty linux (rfds_exc_of 9 w_ebadf {3, 5, 6, 7, 8}) (blocks demo_bar ! 1)"
    by code_simp
  have d: "has_data linux (rfds_read_of 9 w_ebadf {3, 5, 6, 7, 8}) (blocks demo_bar ! 1)"
    by code_simp
  have rf: "ready_flags linux (rfds_read_of 9 w_ebadf {3, 5, 6, 7, 8}) (blocks demo_bar ! 1) = 3"
    by code_simp
  have "\<exists>xs ys zs. snd (snd (iteration linux demo_bar 3 9 w_ebadf {3, 5, 6, 7, 8})) =
      xs @ Berror 1 ''broken stdout/err'' # Block_read_std 1 1 0 # ys @
      Block_read_std 1 0 3 # zs"
    using failed_select_falls_through [OF fail ne sp i f d, THEN conjunct2, THEN conjunct2,
        THEN conjunct2]
    by (simp only: rf)
  with demo_failed_pass show ?thesis by (rule conjI)
qed

subsection \<open>Renders and signal dispatch\<close>

lemma no_render_in_data_reads: "count_list (data_reads p rd k bs) Json_print_bar = 0"
  by (auto simp: count_list_0_iff data_reads_def)

lemma no_render_in_failure_events: "count_list (failure_events p bar nfds w rfds) Json_print_bar = 0"
  by (auto simp: count_list_0_iff failure_events_def broken_events_def)

lemma count_render_sweep:
  "count_list (sweep p bar rd) Json_print_bar = (if data_reads p rd 0 (blocks bar) = [] then 0 else 1)"
  by (simp add: sweep_eq no_render_in_data_reads)

lemma dispatch_SIGCHLD:
  "SIGCHLD p \<notin> {SIGTERM p, SIGINT p, SIGALRM p} \<Longrightarrow>
   dispatch p (SIGCHLD p) = (Continue, [Bar_poll_exited, Json_print_bar])"
  by (simp add: dispatch_def)

text \<open>
  C4. In a pass of the loop the events of the signal part come before the events of the
  sweep. The sweep is the calls of \<^verbatim>\<open>block_read_std\<close> for the blocks with data,
  followed by one \<^verbatim>\<open>json_print_bar\<close> when there is at least one such call, so it
  renders at most once. A \<^verbatim>\<open>SIGCHLD\<close> record gives one \<^verbatim>\<open>bar_poll_exited\<close> and one
  \<^verbatim>\<open>json_print_bar\<close>. When the record is \<^verbatim>\<open>SIGCHLD\<close> and the sweep runs with data, the
  pass renders twice, first for the signal.
\<close>

theorem renders_in_one_pass:
  assumes ni: "\<not> interrupted p w" and nz: "select_ret w \<noteq> 0"
    and chld: "SIGCHLD p \<notin> {SIGTERM p, SIGINT p, SIGALRM p}"
  shows "(\<exists>fl a es2 es3.
            signal_part p sfd w (rfds_read_of nfds w rfds) (select_ret w) = (fl, a, es2) \<and>
            snd (snd (iteration p bar sfd nfds w rfds)) =
              failure_events p bar nfds w rfds @ es2 @ es3 \<and>
            (es3 = [] \<or> es3 = sweep p bar (rfds_read_of nfds w rfds))) \<and>
         sweep p bar rd =
           data_reads p rd 0 (blocks bar) @
           (if data_reads p rd 0 (blocks bar) = [] then [] else [Json_print_bar]) \<and>
         count_list (data_reads p rd 0 (blocks bar)) Json_print_bar = 0 \<and>
         count_list (sweep p bar rd) Json_print_bar \<le> 1 \<and>
         dispatch p (SIGCHLD p) = (Continue, [Bar_poll_exited, Json_print_bar]) \<and>
         (sfd \<in> rfds_read_of nfds w rfds \<and> read_ret w = siginfo_size p \<and>
          ssi_signo w = SIGCHLD p \<longrightarrow>
            iteration p bar sfd nfds w rfds =
              (Continue, after_failure p bar nfds w rfds,
               failure_events p bar nfds w rfds @
               [Debug ''received signal %d (%s)'', Bar_poll_exited, Json_print_bar] @
               (if select_ret w = 1 then []
                else data_reads p (rfds_read_of nfds w rfds) 0 (blocks bar) @
                     (if data_reads p (rfds_read_of nfds w rfds) 0 (blocks bar) = [] then []
                      else [Json_print_bar]))) \<and>
            count_list (snd (snd (iteration p bar sfd nfds w rfds))) Json_print_bar =
              (if select_ret w = 1 \<or> data_reads p (rfds_read_of nfds w rfds) 0 (blocks bar) = []
               then 1 else 2))"
proof (intro conjI impI)
  let ?rd = "rfds_read_of nfds w rfds"
  obtain fl a es2 where sp: "signal_part p sfd w ?rd (select_ret w) = (fl, a, es2)"
    by (cases "signal_part p sfd w ?rd (select_ret w)")
  show "\<exists>fl a es2 es3.
            signal_part p sfd w ?rd (select_ret w) = (fl, a, es2) \<and>
            snd (snd (iteration p bar sfd nfds w rfds)) =
              failure_events p bar nfds w rfds @ es2 @ es3 \<and>
            (es3 = [] \<or> es3 = sweep p bar ?rd)"
    by (simp add: iteration_eq [OF ni nz] sp)
  show "sweep p bar rd =
           data_reads p rd 0 (blocks bar) @
           (if data_reads p rd 0 (blocks bar) = [] then [] else [Json_print_bar])"
    by (simp add: sweep_eq)
  show "count_list (data_reads p rd 0 (blocks bar)) Json_print_bar = 0"
    by (rule no_render_in_data_reads)
  show "count_list (sweep p bar rd) Json_print_bar \<le> 1"
    by (simp add: count_render_sweep)
  show d: "dispatch p (SIGCHLD p) = (Continue, [Bar_poll_exited, Json_print_bar])"
    by (rule dispatch_SIGCHLD [OF chld])
  assume h: "sfd \<in> ?rd \<and> read_ret w = siginfo_size p \<and> ssi_signo w = SIGCHLD p"
  then have sp': "signal_part p sfd w ?rd (select_ret w) =
      (Continue, select_ret w - 1,
       [Debug ''received signal %d (%s)'', Bar_poll_exited, Json_print_bar])"
    by (simp add: signal_part_def d)
  show it: "iteration p bar sfd nfds w rfds =
              (Continue, after_failure p bar nfds w rfds,
               failure_events p bar nfds w rfds @
               [Debug ''received signal %d (%s)'', Bar_poll_exited, Json_print_bar] @
               (if select_ret w = 1 then []
                else data_reads p ?rd 0 (blocks bar) @
                     (if data_reads p ?rd 0 (blocks bar) = [] then []
                      else [Json_print_bar])))"
    by (simp add: iteration_eq [OF ni nz] sp' sweep_eq)
  show "count_list (snd (snd (iteration p bar sfd nfds w rfds))) Json_print_bar =
              (if select_ret w = 1 \<or> data_reads p ?rd 0 (blocks bar) = [] then 1 else 2)"
    by (simp add: it no_render_in_failure_events no_render_in_data_reads)
qed

lemma demo_chld_pass:
  "iteration linux demo_bar 3 9 w_chld_data {3, 5, 6, 7, 8} =
     (Continue, {3, 5, 6, 7, 8},
      [Debug ''received signal %d (%s)'', Bar_poll_exited, Json_print_bar,
       Block_read_std 1 0 1, Json_print_bar])"
  by code_simp

theorem renders_in_one_pass_witness:
  "iteration linux demo_bar 3 9 w_chld_data {3, 5, 6, 7, 8} =
     (Continue, {3, 5, 6, 7, 8},
      [Debug ''received signal %d (%s)'', Bar_poll_exited, Json_print_bar,
       Block_read_std 1 0 1, Json_print_bar]) \<and>
   count_list (snd (snd (iteration linux demo_bar 3 9 w_chld_data {3, 5, 6, 7, 8})))
     Json_print_bar = 2 \<and>
   dispatch linux (SIGCHLD linux) = (Continue, [Bar_poll_exited, Json_print_bar])"
proof -
  have ni: "\<not> interrupted linux w_chld_data" by (simp add: interrupted_def w_chld_data_def)
  have nz: "select_ret w_chld_data \<noteq> 0" by (simp add: w_chld_data_def)
  have chld: "SIGCHLD linux \<notin> {SIGTERM linux, SIGINT linux, SIGALRM linux}"
    by (simp add: linux_def)
  have h: "3 \<in> rfds_read_of 9 w_chld_data {3, 5, 6, 7, 8} \<and>
      read_ret w_chld_data = siginfo_size linux \<and> ssi_signo w_chld_data = SIGCHLD linux"
    by code_simp
  have n1: "select_ret w_chld_data \<noteq> 1" by (simp add: w_chld_data_def)
  have dr: "data_reads linux (rfds_read_of 9 w_chld_data {3, 5, 6, 7, 8}) 0 (blocks demo_bar) \<noteq> []"
    by code_simp
  note th = renders_in_one_pass [OF ni nz chld, of 3 9 "{3, 5, 6, 7, 8}" demo_bar]
  from th h have "count_list (snd (snd (iteration linux demo_bar 3 9 w_chld_data {3, 5, 6, 7, 8})))
     Json_print_bar = (if select_ret w_chld_data = 1 \<or>
        data_reads linux (rfds_read_of 9 w_chld_data {3, 5, 6, 7, 8}) 0 (blocks demo_bar) = []
        then 1 else 2)"
    by blast
  then have c: "count_list (snd (snd (iteration linux demo_bar 3 9 w_chld_data {3, 5, 6, 7, 8})))
     Json_print_bar = 2"
    using n1 dr by simp
  from th have "dispatch linux (SIGCHLD linux) = (Continue, [Bar_poll_exited, Json_print_bar])"
    by blast
  with demo_chld_pass c show ?thesis by blast
qed

text \<open>
  C5. On a platform whose standard signals are below \<^verbatim>\<open>SIGRTMIN\<close>, a signal record
  with \<^verbatim>\<open>SIGRTMIN < sig \<le> SIGRTMAX\<close> gives \<^verbatim>\<open>bar_poll_signaled(bar, sig - SIGRTMIN)\<close>;
  \<^verbatim>\<open>bar_poll_signaled\<close> is called for no signal outside that range, and for a signal in
  the range only with that index; \<^verbatim>\<open>SIGRTMIN\<close> itself is only logged as unhandled.
\<close>

theorem realtime_signal_dispatch:
  assumes std: "standard_below_rt p"
  shows "(SIGRTMIN p < sig \<and> sig \<le> SIGRTMAX p \<longrightarrow>
            dispatch p sig = (Continue, [Bar_poll_signaled (sig - SIGRTMIN p)])) \<and>
         (SIGRTMIN p < sig \<and> sig \<le> SIGRTMAX p \<and> sfd \<in> rd \<and>
          read_ret w = siginfo_size p \<and> ssi_signo w = sig \<longrightarrow>
            signal_part p sfd w rd a =
              (Continue, a - 1,
               [Debug ''received signal %d (%s)'', Bar_poll_signaled (sig - SIGRTMIN p)])) \<and>
         (\<forall>k. Bar_poll_signaled k \<in> set (snd (dispatch p sig)) \<longrightarrow>
            SIGRTMIN p < sig \<and> sig \<le> SIGRTMAX p \<and> k = sig - SIGRTMIN p) \<and>
         dispatch p (SIGRTMIN p) = (Continue, [Debug ''unhandled signal %d''])"
proof -
  have lt: "SIGTERM p < SIGRTMIN p" "SIGINT p < SIGRTMIN p" "SIGALRM p < SIGRTMIN p"
    "SIGCHLD p < SIGRTMIN p" "SIGUSR1 p < SIGRTMIN p" "SIGUSR2 p < SIGRTMIN p"
    "SIGIO p < SIGRTMIN p"
    using std by (simp_all add: standard_below_rt_def standard_signals_def)
  have a: "dispatch p sig = (Continue, [Bar_poll_signaled (sig - SIGRTMIN p)])"
    if "SIGRTMIN p < sig \<and> sig \<le> SIGRTMAX p"
    using that lt by (simp add: dispatch_def)
  have b: "SIGRTMIN p < sig \<and> sig \<le> SIGRTMAX p \<and> k = sig - SIGRTMIN p"
    if "Bar_poll_signaled k \<in> set (snd (dispatch p sig))" for k
    using that by (simp add: dispatch_def split: if_splits)
  have c: "dispatch p (SIGRTMIN p) = (Continue, [Debug ''unhandled signal %d''])"
    using lt by (simp add: dispatch_def)
  have d: "signal_part p sfd w rd a =
      (Continue, a - 1,
       [Debug ''received signal %d (%s)'', Bar_poll_signaled (sig - SIGRTMIN p)])"
    if h: "SIGRTMIN p < sig \<and> sig \<le> SIGRTMAX p \<and> sfd \<in> rd \<and>
          read_ret w = siginfo_size p \<and> ssi_signo w = sig"
  proof -
    have "dispatch p (ssi_signo w) = (Continue, [Bar_poll_signaled (sig - SIGRTMIN p)])"
      using a h by simp
    then show ?thesis using h by (simp add: signal_part_def)
  qed
  show ?thesis
    using a b c d by blast
qed

theorem realtime_signal_dispatch_witness:
  "dispatch linux 44 = (Continue, [Bar_poll_signaled 10]) \<and>
   signal_part linux 3 w_rt {3} 1 =
     (Continue, 0, [Debug ''received signal %d (%s)'', Bar_poll_signaled 10]) \<and>
   dispatch linux 34 = (Continue, [Debug ''unhandled signal %d''])"
proof -
  have std: "standard_below_rt linux"
    by (simp add: standard_below_rt_def standard_signals_def linux_def)
  have r: "SIGRTMIN linux < 44 \<and> 44 \<le> SIGRTMAX linux" "SIGRTMIN linux = 34"
    "44 - SIGRTMIN linux = 10"
    by (simp_all add: linux_def)
  have h: "(3::int) \<in> {3} \<and> read_ret w_rt = siginfo_size linux \<and> ssi_signo w_rt = 44"
    by (simp add: w_rt_def linux_def)
  note th = realtime_signal_dispatch [OF std, of 44 3 "{3}" w_rt 1]
  have "dispatch linux 44 = (Continue, [Bar_poll_signaled (44 - SIGRTMIN linux)])"
    using th r(1) by blast
  then have x: "dispatch linux 44 = (Continue, [Bar_poll_signaled 10])"
    by (simp only: r(3))
  have "signal_part linux 3 w_rt {3} 1 =
     (Continue, 1 - 1, [Debug ''received signal %d (%s)'', Bar_poll_signaled (44 - SIGRTMIN linux)])"
    using th r(1) h by blast
  then have y: "signal_part linux 3 w_rt {3} 1 =
     (Continue, 0, [Debug ''received signal %d (%s)'', Bar_poll_signaled 10])"
    by (simp only: r(3)) simp
  have "dispatch linux (SIGRTMIN linux) = (Continue, [Debug ''unhandled signal %d''])"
    using th by blast
  then have z: "dispatch linux 34 = (Continue, [Debug ''unhandled signal %d''])"
    by (simp only: r(2))
  from x y z show ?thesis by blast
qed

subsection \<open>The timer\<close>

lemma uint_pos_iff: "0 < uint (w::cint) \<longleftrightarrow> w \<noteq> 0"
  using uint_ge_0 [of w] by (auto simp: unsigned_eq_0_iff order_less_le)

text \<open>
  C8. \<^verbatim>\<open>setup_timer\<close> makes no call of \<^verbatim>\<open>setitimer\<close> and leaves the timer as it is when
  \<^verbatim>\<open>longest_sleep\<close> is 0. Otherwise it calls \<^verbatim>\<open>setitimer\<close> once, with \<^verbatim>\<open>it_value\<close> and
  \<^verbatim>\<open>it_interval\<close> both of \<^verbatim>\<open>longest_sleep\<close> seconds and no microseconds, a positive
  time; when the call succeeds that is the timer of the process.
\<close>

theorem setup_timer_arms_period:
  "(longest_sleep bar = 0 \<longrightarrow>
      setup_timer y bar st = (0, emit [Debug ''no timer needed''] st) \<and>
      itimer (snd (setup_timer y bar st)) = itimer st) \<and>
   (longest_sleep bar \<noteq> 0 \<longrightarrow>
      (\<exists>itv d. setup_timer y bar st =
           (if setitimer_ret y = - 1 then 1 else 0,
            emit [Sys_setitimer itv, d]
              (if setitimer_ret y = - 1 then st else st\<lparr>itimer := Some itv\<rparr>)) \<and>
         (d = Errorx ''setitimer'' \<or> d = Debug ''starting timer with interval of %d seconds'') \<and>
         it_value itv = \<lparr>tv_sec = uint (longest_sleep bar), tv_usec = 0\<rparr> \<and>
         it_interval itv = \<lparr>tv_sec = uint (longest_sleep bar), tv_usec = 0\<rparr> \<and>
         0 < tv_sec (it_value itv)))"
proof (intro conjI impI)
  assume z: "longest_sleep bar = 0"
  then show "setup_timer y bar st = (0, emit [Debug ''no timer needed''] st)"
    by (simp add: setup_timer_def)
  then show "itimer (snd (setup_timer y bar st)) = itimer st"
    by (simp add: emit_def)
next
  assume nz: "longest_sleep bar \<noteq> 0"
  let ?tv = "\<lparr>tv_sec = uint (longest_sleep bar), tv_usec = 0\<rparr>"
  let ?itv = "\<lparr>it_interval = ?tv, it_value = ?tv\<rparr>"
  let ?d = "if setitimer_ret y = - 1 then Errorx ''setitimer''
            else Debug ''starting timer with interval of %d seconds''"
  have "setup_timer y bar st =
           (if setitimer_ret y = - 1 then 1 else 0,
            emit [Sys_setitimer ?itv, ?d]
              (if setitimer_ret y = - 1 then st else st\<lparr>itimer := Some ?itv\<rparr>))"
    using nz by (simp add: setup_timer_def Let_def)
  moreover have "?d = Errorx ''setitimer'' \<or> ?d = Debug ''starting timer with interval of %d seconds''"
    by simp
  moreover have "it_value ?itv = ?tv" "it_interval ?itv = ?tv" by simp_all
  moreover have "0 < tv_sec (it_value ?itv)" using nz by (simp add: uint_pos_iff)
  ultimately show "\<exists>itv d. setup_timer y bar st =
           (if setitimer_ret y = - 1 then 1 else 0,
            emit [Sys_setitimer itv, d]
              (if setitimer_ret y = - 1 then st else st\<lparr>itimer := Some itv\<rparr>)) \<and>
         (d = Errorx ''setitimer'' \<or> d = Debug ''starting timer with interval of %d seconds'') \<and>
         it_value itv = \<lparr>tv_sec = uint (longest_sleep bar), tv_usec = 0\<rparr> \<and>
         it_interval itv = \<lparr>tv_sec = uint (longest_sleep bar), tv_usec = 0\<rparr> \<and>
         0 < tv_sec (it_value itv)"
    by blast
qed

lemma longest_sleep_demo: "longest_sleep bar_4_once_6 = 2" "longest_sleep bar_once = 0"
  by code_simp+

theorem setup_timer_arms_period_witness:
  "setup_timer all_ok bar_once fresh = (0, emit [Debug ''no timer needed''] fresh) \<and>
   (\<exists>itv d. setup_timer all_ok bar_4_once_6 fresh =
        (0, emit [Sys_setitimer itv, d] (fresh\<lparr>itimer := Some itv\<rparr>)) \<and>
      it_value itv = \<lparr>tv_sec = 2, tv_usec = 0\<rparr> \<and>
      it_interval itv = \<lparr>tv_sec = 2, tv_usec = 0\<rparr>)"
proof -
  have ok: "setitimer_ret all_ok \<noteq> - 1" by (simp add: all_ok_def)
  have z: "longest_sleep bar_once = 0" and nz: "longest_sleep bar_4_once_6 \<noteq> 0"
    and u: "uint (longest_sleep bar_4_once_6) = 2"
    by (simp_all add: longest_sleep_demo)
  have a: "setup_timer all_ok bar_once fresh = (0, emit [Debug ''no timer needed''] fresh)"
    using setup_timer_arms_period [of bar_once all_ok fresh] z by blast
  have "\<exists>itv d. setup_timer all_ok bar_4_once_6 fresh =
           (if setitimer_ret all_ok = - 1 then 1 else 0,
            emit [Sys_setitimer itv, d]
              (if setitimer_ret all_ok = - 1 then fresh else fresh\<lparr>itimer := Some itv\<rparr>)) \<and>
         (d = Errorx ''setitimer'' \<or> d = Debug ''starting timer with interval of %d seconds'') \<and>
         it_value itv = \<lparr>tv_sec = uint (longest_sleep bar_4_once_6), tv_usec = 0\<rparr> \<and>
         it_interval itv = \<lparr>tv_sec = uint (longest_sleep bar_4_once_6), tv_usec = 0\<rparr> \<and>
         0 < tv_sec (it_value itv)"
    using setup_timer_arms_period [of bar_4_once_6 all_ok fresh] nz by blast
  then have b: "\<exists>itv d. setup_timer all_ok bar_4_once_6 fresh =
        (0, emit [Sys_setitimer itv, d] (fresh\<lparr>itimer := Some itv\<rparr>)) \<and>
      it_value itv = \<lparr>tv_sec = 2, tv_usec = 0\<rparr> \<and>
      it_interval itv = \<lparr>tv_sec = 2, tv_usec = 0\<rparr>"
    using ok by (simp only: u if_False) blast
  from a b show ?thesis by (rule conjI)
qed

subsection \<open>The signal gate\<close>

lemma emit_fields:
  "sigset (emit es st) = sigset st" "sigfd (emit es st) = sigfd st"
  "sigmask (emit es st) = sigmask st" "itimer (emit es st) = itimer st"
  "log (emit es st) = log st @ es"
  by (simp_all add: emit_def)

lemma add_sigs_result:
  "add_sigs y dbg sigs st = (ok, st') \<Longrightarrow>
   sigfd st' = sigfd st \<and> sigmask st' = sigmask st \<and> itimer st' = itimer st \<and>
   (ok \<longleftrightarrow> (\<forall>s \<in> set sigs. sigaddset_ret y s \<noteq> - 1)) \<and>
   (ok \<longrightarrow> sigset st' = sigset st \<union> set sigs \<and>
      log st' = log st @
        (if dbg then replicate (length sigs) (Debug ''provide signal %d (%s)'') else []))"
proof (induction sigs arbitrary: st)
  case Nil
  then show ?case by auto
next
  case (Cons s sigs)
  show ?case
  proof (cases "sigaddset_ret y s = - 1")
    case True
    with Cons.prems show ?thesis by (cases dbg) (auto simp: Let_def emit_fields)
  next
    case False
    let ?st = "(if dbg then emit [Debug ''provide signal %d (%s)''] st else st)
                 \<lparr>sigset := insert s (sigset (if dbg then emit [Debug ''provide signal %d (%s)''] st else st))\<rparr>"
    have "add_sigs y dbg sigs ?st = (ok, st')"
      using Cons.prems False by (simp add: Let_def)
    from Cons.IH [OF this] False show ?thesis
      by (cases dbg) (auto simp: emit_fields replicate_append_same)
  qed
qed

lemma setup_signals_alt:
  "setup_signals p y st =
     (if sigemptyset_ret y = - 1 then (1, emit [Errorx ''sigemptyset''] st)
      else
        case add_sigs y False (standard_signals p) (st\<lparr>sigset := {}\<rparr>) of
          (False, st) \<Rightarrow> (1, st)
        | (True, st) \<Rightarrow>
            (case add_sigs y True [SIGRTMIN p + 1..SIGRTMAX p] st of
               (False, st) \<Rightarrow> (1, st)
             | (True, st) \<Rightarrow>
                 let st = emit [Sys_signalfd (sigset st)] (st\<lparr>sigfd := signalfd_ret y\<rparr>) in
                 if sigfd st = - 1 then (1, emit [Errorx ''signalfd''] st)
                 else if sigprocmask_ret y = - 1
                 then (1, emit [Sys_sigprocmask SIG_SETMASK (sigset st), Errorx ''sigprocmask''] st)
                 else (0, emit [Sys_sigprocmask SIG_SETMASK (sigset st)]
                            (st\<lparr>sigmask := sigset st\<rparr>))))"
  by (simp only: setup_signals_def standard_signals_def)

lemma setup_signals_ok:
  assumes ok: "gate_ok p y"
  shows "setup_signals p y st =
     (0, st\<lparr>sigset := gate_signals p, sigfd := signalfd_ret y, sigmask := gate_signals p,
            log := log st @ provide_log p @
              [Sys_signalfd (gate_signals p), Sys_sigprocmask SIG_SETMASK (gate_signals p)]\<rparr>)"
proof -
  obtain ok1 st1 where a1: "add_sigs y False (standard_signals p) (st\<lparr>sigset := {}\<rparr>) = (ok1, st1)"
    by (cases "add_sigs y False (standard_signals p) (st\<lparr>sigset := {}\<rparr>)")
  obtain ok2 st2 where a2: "add_sigs y True [SIGRTMIN p + 1..SIGRTMAX p] st1 = (ok2, st2)"
    by (cases "add_sigs y True [SIGRTMIN p + 1..SIGRTMAX p] st1")
  note r1 = add_sigs_result [OF a1] and r2 = add_sigs_result [OF a2]
  have ok1: ok1 using r1 ok by (simp add: gate_ok_def list_all_iff)
  have ok2: ok2 using r2 ok by (simp add: gate_ok_def list_all_iff)
  have st2: "st2 = st\<lparr>sigset := gate_signals p, log := log st @ provide_log p\<rparr>"
    using r1 r2 ok1 ok2 by (intro state.equality) (simp_all add: gate_signals_def provide_log_def)
  have a1': "add_sigs y False (standard_signals p) (st\<lparr>sigset := {}\<rparr>) = (True, st1)"
    using a1 ok1 by simp
  have a2': "add_sigs y True [SIGRTMIN p + 1..SIGRTMAX p] st1 = (True, st2)"
    using a2 ok2 by simp
  show ?thesis
    using ok by (simp add: setup_signals_alt a1' a2' st2 gate_ok_def emit_def Let_def)
qed

lemma setup_signals_failed:
  assumes bad: "\<not> gate_ok p y"
  shows "fst (setup_signals p y st) = 1 \<and>
         sigmask (snd (setup_signals p y st)) = sigmask st \<and>
         itimer (snd (setup_signals p y st)) = itimer st"
proof -
  obtain ok1 st1 where a1: "add_sigs y False (standard_signals p) (st\<lparr>sigset := {}\<rparr>) = (ok1, st1)"
    by (cases "add_sigs y False (standard_signals p) (st\<lparr>sigset := {}\<rparr>)")
  obtain ok2 st2 where a2: "add_sigs y True [SIGRTMIN p + 1..SIGRTMAX p] st1 = (ok2, st2)"
    by (cases "add_sigs y True [SIGRTMIN p + 1..SIGRTMAX p] st1")
  note r1 = add_sigs_result [OF a1] and r2 = add_sigs_result [OF a2]
  have m1: "sigmask st1 = sigmask st" "itimer st1 = itimer st" using r1 by simp_all
  have m2: "sigmask st2 = sigmask st" "itimer st2 = itimer st" using r2 m1 by simp_all
  have o1: "ok1 \<longleftrightarrow> list_all (\<lambda>s. sigaddset_ret y s \<noteq> - 1) (standard_signals p)"
    using r1 by (simp add: list_all_iff)
  have o2: "ok2 \<longleftrightarrow> list_all (\<lambda>s. sigaddset_ret y s \<noteq> - 1) [SIGRTMIN p + 1..SIGRTMAX p]"
    using r2 by (simp add: list_all_iff)
  show ?thesis
  proof (cases "sigemptyset_ret y = - 1")
    case True
    then show ?thesis by (simp add: setup_signals_alt emit_fields)
  next
    case e: False
    show ?thesis
    proof (cases ok1)
      case False
      then show ?thesis using e m1 by (simp add: setup_signals_alt a1)
    next
      case t1: True
      show ?thesis
      proof (cases ok2)
        case False
        then show ?thesis using e t1 m2 by (simp add: setup_signals_alt a1 a2)
      next
        case t2: True
        then have "signalfd_ret y = - 1 \<or> sigprocmask_ret y = - 1"
          using bad e t1 o1 o2 by (auto simp: gate_ok_def)
        then show ?thesis
          using e t1 t2 m2
          by (auto simp: setup_signals_alt a1 a2 emit_fields Let_def)
      qed
    qed
  qed
qed

lemma gate_signals_eq:
  "gate_signals p =
     {SIGTERM p, SIGINT p, SIGALRM p, SIGCHLD p, SIGIO p, SIGUSR1 p, SIGUSR2 p} \<union>
     {s. SIGRTMIN p < s \<and> s \<le> SIGRTMAX p}"
  by (auto simp: gate_signals_def standard_signals_def)

lemma SIGRTMIN_not_in_gate: "standard_below_rt p \<Longrightarrow> SIGRTMIN p \<notin> gate_signals p"
  by (auto simp: gate_signals_eq standard_below_rt_def standard_signals_def)

text \<open>
  C7. When every step succeeds, \<^verbatim>\<open>setup_signals\<close> returns 0 with \<^verbatim>\<open>sigset\<close> equal to
  \<^verbatim>\<open>SIGTERM\<close>, \<^verbatim>\<open>SIGINT\<close>, \<^verbatim>\<open>SIGALRM\<close>, \<^verbatim>\<open>SIGCHLD\<close>, \<^verbatim>\<open>SIGIO\<close>, \<^verbatim>\<open>SIGUSR1\<close>, \<^verbatim>\<open>SIGUSR2\<close>
  and the signals \<open>s\<close> with \<^verbatim>\<open>SIGRTMIN < s \<le> SIGRTMAX\<close> (so without \<^verbatim>\<open>SIGRTMIN\<close>), with one
  call of \<^verbatim>\<open>signalfd\<close> for that set, whose result is \<^verbatim>\<open>sigfd\<close>, and with that set as the
  signal mask of the process. When \<^verbatim>\<open>sigemptyset\<close>, a \<^verbatim>\<open>sigaddset\<close>, \<^verbatim>\<open>signalfd\<close> or
  \<^verbatim>\<open>sigprocmask\<close> fails, it returns 1 with the mask and the timer untouched, and
  \<^verbatim>\<open>sched_init\<close> returns 1 at once.
\<close>

theorem setup_signals_gate:
  "gate_signals p =
     {SIGTERM p, SIGINT p, SIGALRM p, SIGCHLD p, SIGIO p, SIGUSR1 p, SIGUSR2 p} \<union>
     {s. SIGRTMIN p < s \<and> s \<le> SIGRTMAX p} \<and>
   (standard_below_rt p \<longrightarrow> SIGRTMIN p \<notin> gate_signals p) \<and>
   (gate_ok p y \<longrightarrow>
      setup_signals p y st =
        (0, st\<lparr>sigset := gate_signals p, sigfd := signalfd_ret y, sigmask := gate_signals p,
               log := log st @ provide_log p @
                 [Sys_signalfd (gate_signals p),
                  Sys_sigprocmask SIG_SETMASK (gate_signals p)]\<rparr>)) \<and>
   (\<not> gate_ok p y \<longrightarrow>
      fst (setup_signals p y st) = 1 \<and>
      sigmask (snd (setup_signals p y st)) = sigmask st \<and>
      itimer (snd (setup_signals p y st)) = itimer st \<and>
      sched_init p y bar st = (1, snd (setup_signals p y st)))"
proof (intro conjI impI)
  show "gate_signals p =
     {SIGTERM p, SIGINT p, SIGALRM p, SIGCHLD p, SIGIO p, SIGUSR1 p, SIGUSR2 p} \<union>
     {s. SIGRTMIN p < s \<and> s \<le> SIGRTMAX p}"
    by (rule gate_signals_eq)
  show "SIGRTMIN p \<notin> gate_signals p" if "standard_below_rt p"
    using that by (rule SIGRTMIN_not_in_gate)
  show "setup_signals p y st =
        (0, st\<lparr>sigset := gate_signals p, sigfd := signalfd_ret y, sigmask := gate_signals p,
               log := log st @ provide_log p @
                 [Sys_signalfd (gate_signals p),
                  Sys_sigprocmask SIG_SETMASK (gate_signals p)]\<rparr>)" if "gate_ok p y"
    using that by (rule setup_signals_ok)
next
  assume bad: "\<not> gate_ok p y"
  note f = setup_signals_failed [OF bad, of st]
  show "fst (setup_signals p y st) = 1" using f by simp
  show "sigmask (snd (setup_signals p y st)) = sigmask st" using f by simp
  show "itimer (snd (setup_signals p y st)) = itimer st" using f by simp
  show "sched_init p y bar st = (1, snd (setup_signals p y st))"
    using f by (simp add: sched_init_def split_beta)
qed

theorem setup_signals_gate_witness:
  "setup_signals linux all_ok fresh =
     (0, fresh\<lparr>sigset := gate_signals linux, sigfd := 3, sigmask := gate_signals linux,
               log := provide_log linux @
                 [Sys_signalfd (gate_signals linux),
                  Sys_sigprocmask SIG_SETMASK (gate_signals linux)]\<rparr>) \<and>
   gate_signals linux = {15, 2, 14, 17, 29, 10, 12} \<union> {s. 34 < s \<and> s \<le> 64} \<and>
   34 \<notin> gate_signals linux \<and>
   fst (setup_signals linux no_signalfd fresh) = 1 \<and>
   sched_init linux no_signalfd demo_bar fresh = (1, snd (setup_signals linux no_signalfd fresh))"
proof -
  have ok: "gate_ok linux all_ok"
    by (simp add: gate_ok_def all_ok_def list_all_iff)
  have bad: "\<not> gate_ok linux no_signalfd"
    by (simp add: gate_ok_def no_signalfd_def)
  have std: "standard_below_rt linux"
    by (simp add: standard_below_rt_def standard_signals_def linux_def)
  have c: "signalfd_ret all_ok = 3" "log fresh = []" "SIGRTMIN linux = 34"
    by (simp_all add: all_ok_def fresh_def linux_def)
  note th1 = setup_signals_gate [of linux all_ok fresh demo_bar]
  note th2 = setup_signals_gate [of linux no_signalfd fresh demo_bar]
  have a: "setup_signals linux all_ok fresh =
     (0, fresh\<lparr>sigset := gate_signals linux, sigfd := 3, sigmask := gate_signals linux,
               log := provide_log linux @
                 [Sys_signalfd (gate_signals linux),
                  Sys_sigprocmask SIG_SETMASK (gate_signals linux)]\<rparr>)"
    using th1 ok c by simp
  have b: "gate_signals linux = {15, 2, 14, 17, 29, 10, 12} \<union> {s. 34 < s \<and> s \<le> 64}"
    using th1 by (simp add: linux_def)
  have "SIGRTMIN linux \<notin> gate_signals linux"
    using th1 std by blast
  then have n: "34 \<notin> gate_signals linux"
    unfolding c(3) .
  have d: "fst (setup_signals linux no_signalfd fresh) = 1"
    "sched_init linux no_signalfd demo_bar fresh = (1, snd (setup_signals linux no_signalfd fresh))"
    using th2 bad by simp_all
  from a b n d show ?thesis by blast
qed

subsection \<open>The wait set and the range of a descriptor set\<close>

lemma add_block_fds_filter:
  "add_block_fds p (filter (\<lambda>b. interval b = INTER_BLOCKING p) bs) st = add_block_fds p bs st"
  by (induction bs arbitrary: st) (simp_all split: sum.splits)

lemma add_block_fds_in_range:
  "\<forall>fd \<in> streaming_fds p bs. 0 \<le> fd \<and> fd < FD_SETSIZE p \<Longrightarrow>
   \<exists>n. add_block_fds p bs (rfds, m) = Inr (rfds \<union> streaming_fds p bs, n) \<and> m \<le> n \<and>
       (n = m \<or> n \<in> streaming_fds p bs)"
proof (induction bs arbitrary: rfds m)
  case Nil
  then show ?case by (simp add: streaming_fds_def)
next
  case (Cons b bs)
  show ?case
  proof (cases "interval b = INTER_BLOCKING p")
    case False
    then have "streaming_fds p (b # bs) = streaming_fds p bs" by (simp add: streaming_fds_def)
    with Cons False show ?thesis by simp
  next
    case True
    then have sf: "streaming_fds p (b # bs) = insert (out b) (insert (err b) (streaming_fds p bs))"
      by (simp add: streaming_fds_def)
    have r: "0 \<le> out b \<and> out b < FD_SETSIZE p" "0 \<le> err b \<and> err b < FD_SETSIZE p"
      "\<forall>fd \<in> streaming_fds p bs. 0 \<le> fd \<and> fd < FD_SETSIZE p"
      using Cons.prems by (simp_all add: sf)
    let ?m1 = "if out b > m then out b else m"
    let ?m2 = "if err b > ?m1 then err b else ?m1"
    obtain n where n: "add_block_fds p bs (insert (err b) (insert (out b) rfds), ?m2) =
        Inr (insert (err b) (insert (out b) rfds) \<union> streaming_fds p bs, n)"
      "?m2 \<le> n" "n = ?m2 \<or> n \<in> streaming_fds p bs"
      using Cons.IH [OF r(3), of "insert (err b) (insert (out b) rfds)" ?m2] by blast
    have "add_block_fds p (b # bs) (rfds, m) =
        Inr (rfds \<union> streaming_fds p (b # bs), n)"
      using True r(1,2) n(1) by (simp add: ADD_FD_eq sf Un_commute insert_commute)
    moreover have "m \<le> n" using n(2) by (simp split: if_splits)
    moreover have "n = m \<or> n \<in> streaming_fds p (b # bs)"
      using n(3) by (auto simp: sf split: if_splits)
    ultimately show ?thesis by blast
  qed
qed

lemma add_block_fds_Inr_range:
  "add_block_fds p bs st = Inr x \<Longrightarrow> \<forall>fd \<in> streaming_fds p bs. 0 \<le> fd \<and> fd < FD_SETSIZE p"
proof (induction bs arbitrary: st)
  case Nil
  then show ?case by (simp add: streaming_fds_def)
next
  case (Cons b bs)
  obtain rfds m where st: "st = (rfds, m)" by (cases st)
  show ?case
  proof (cases "interval b = INTER_BLOCKING p")
    case False
    then have "streaming_fds p (b # bs) = streaming_fds p bs" by (simp add: streaming_fds_def)
    with Cons False show ?thesis by simp
  next
    case True
    then have sf: "streaming_fds p (b # bs) = insert (out b) (insert (err b) (streaming_fds p bs))"
      by (simp add: streaming_fds_def)
    from Cons.prems True st have
      r: "0 \<le> out b \<and> out b < FD_SETSIZE p" "0 \<le> err b \<and> err b < FD_SETSIZE p"
      and "\<exists>st'. add_block_fds p bs st' = Inr x"
      by (auto simp: ADD_FD_eq split: if_splits)
    then show ?thesis using Cons.IH by (auto simp: sf)
  qed
qed

lemma build_wait_set_in_range:
  assumes "fds_in_range p sfd bar"
  shows "\<exists>nfds. build_wait_set p sfd bar = Inr (insert sfd (streaming_fds p (blocks bar)), nfds) \<and>
           nfds \<le> FD_SETSIZE p"
proof -
  have s: "0 \<le> sfd \<and> sfd < FD_SETSIZE p"
    and b: "\<forall>fd \<in> streaming_fds p (blocks bar). 0 \<le> fd \<and> fd < FD_SETSIZE p"
    using assms by (simp_all add: fds_in_range_def)
  let ?m = "if sfd > 0 then sfd else 0"
  obtain n where n: "add_block_fds p (blocks bar) ({sfd}, ?m) =
      Inr ({sfd} \<union> streaming_fds p (blocks bar), n)" "?m \<le> n"
    "n = ?m \<or> n \<in> streaming_fds p (blocks bar)"
    using add_block_fds_in_range [OF b, of "{sfd}" ?m] by blast
  have "n < FD_SETSIZE p" using n(3) s b by (auto split: if_splits)
  then show ?thesis
    using s n(1) by (auto simp: build_wait_set_def ADD_FD_eq)
qed

lemma built_in_range:
  assumes "build_wait_set p sfd bar = Inr (rfds, nfds)"
  shows "fds_in_range p sfd bar \<and> rfds = insert sfd (streaming_fds p (blocks bar)) \<and>
         nfds \<le> FD_SETSIZE p"
proof -
  have s: "0 \<le> sfd \<and> sfd < FD_SETSIZE p"
    using assms by (auto simp: build_wait_set_def ADD_FD_eq split: if_splits)
  then obtain x where "add_block_fds p (blocks bar) ({sfd}, if sfd > 0 then sfd else 0) = Inr x"
    using assms by (auto simp: build_wait_set_def ADD_FD_eq split: sum.splits)
  then have "\<forall>fd \<in> streaming_fds p (blocks bar). 0 \<le> fd \<and> fd < FD_SETSIZE p"
    by (rule add_block_fds_Inr_range)
  with s have r: "fds_in_range p sfd bar" by (simp add: fds_in_range_def)
  from build_wait_set_in_range [OF r] assms show ?thesis using r by auto
qed

lemma build_wait_set_streaming_only:
  "build_wait_set p sfd (streaming_only p bar) = build_wait_set p sfd bar"
  by (simp add: build_wait_set_def streaming_only_def add_block_fds_filter split: sum.splits)

text \<open>
  C9. When the signal descriptor and the descriptors of the streaming blocks fit an
  \<^verbatim>\<open>fd_set\<close>, the wait set is built once, before the loop, and holds the signal descriptor
  and the \<^verbatim>\<open>out\<close> and \<^verbatim>\<open>err\<close> descriptors of the blocks whose interval is
  \<^verbatim>\<open>INTER_BLOCKING\<close>, and nothing else: the blocks with any other interval can be taken
  out of the bar without changing the wait set or \<^verbatim>\<open>nfds\<close>. The wait set is built without
  a fault only in that case. A pass of the loop, and any number of passes, only take
  descriptors out of the set.
\<close>

theorem wait_set_built_once:
  "(fds_in_range p sfd bar \<longrightarrow>
      (\<exists>nfds. build_wait_set p sfd bar =
          Inr (insert sfd (streaming_fds p (blocks bar)), nfds))) \<and>
   (\<forall>rfds nfds. build_wait_set p sfd bar = Inr (rfds, nfds) \<longrightarrow>
      fds_in_range p sfd bar \<and>
      rfds = insert sfd (streaming_fds p (blocks bar)) \<and>
      (\<forall>fd \<in> rfds. fd = sfd \<or>
         (\<exists>b \<in> set (blocks bar). interval b = INTER_BLOCKING p \<and> (fd = out b \<or> fd = err b))) \<and>
      (\<forall>b \<in> set (blocks bar). interval b = INTER_BLOCKING p \<longrightarrow> out b \<in> rfds \<and> err b \<in> rfds) \<and>
      sfd \<in> rfds \<and>
      fst (snd (reactor p bar sfd nfds ws rfds)) \<subseteq> insert sfd (streaming_fds p (blocks bar))) \<and>
   build_wait_set p sfd (streaming_only p bar) = build_wait_set p sfd bar \<and>
   fst (snd (iteration p bar sfd nfds' w rfds')) \<subseteq> rfds' \<and>
   fst (snd (reactor p bar sfd nfds' ws rfds')) \<subseteq> rfds'"
proof (intro conjI impI allI)
  show "\<exists>nfds. build_wait_set p sfd bar = Inr (insert sfd (streaming_fds p (blocks bar)), nfds)"
    if "fds_in_range p sfd bar"
    using build_wait_set_in_range [OF that] by blast
  show "build_wait_set p sfd (streaming_only p bar) = build_wait_set p sfd bar"
    by (rule build_wait_set_streaming_only)
  show "fst (snd (iteration p bar sfd nfds' w rfds')) \<subseteq> rfds'"
    by (rule iteration_subset)
  show "fst (snd (reactor p bar sfd nfds' ws rfds')) \<subseteq> rfds'"
    by (rule reactor_subset)
next
  fix rfds nfds
  assume b: "build_wait_set p sfd bar = Inr (rfds, nfds)"
  note r = built_in_range [OF b]
  show "fds_in_range p sfd bar" using r by simp
  show eq: "rfds = insert sfd (streaming_fds p (blocks bar))" using r by simp
  show "\<forall>fd \<in> rfds. fd = sfd \<or>
         (\<exists>b \<in> set (blocks bar). interval b = INTER_BLOCKING p \<and> (fd = out b \<or> fd = err b))"
    by (auto simp: eq streaming_fds_def)
  show "\<forall>b \<in> set (blocks bar). interval b = INTER_BLOCKING p \<longrightarrow> out b \<in> rfds \<and> err b \<in> rfds"
    by (auto simp: eq streaming_fds_def)
  show "sfd \<in> rfds" by (simp add: eq)
  show "fst (snd (reactor p bar sfd nfds ws rfds)) \<subseteq> insert sfd (streaming_fds p (blocks bar))"
    using reactor_subset [of p bar sfd nfds ws rfds] by (simp add: eq)
qed

theorem wait_set_built_once_witness:
  "fds_in_range linux 3 demo_bar \<and>
   build_wait_set linux 3 demo_bar = Inr ({3, 5, 6, 7, 8}, 9) \<and>
   {3, 5, 6, 7, 8} = insert 3 (streaming_fds linux (blocks demo_bar)) \<and>
   (\<exists>b \<in> set (blocks demo_bar).
      interval b = INTER_BLOCKING linux \<and> (5 = out b \<or> 5 = err b)) \<and>
   build_wait_set linux 3 (streaming_only linux demo_bar) = Inr ({3, 5, 6, 7, 8}, 9)"
proof -
  have b: "build_wait_set linux 3 demo_bar = Inr ({3, 5, 6, 7, 8}, 9)"
    by (rule demo_wait_set)
  note th = wait_set_built_once [of linux 3 demo_bar]
  note built = th [THEN conjunct2, THEN conjunct1, rule_format, OF b]
  have r: "fds_in_range linux 3 demo_bar"
    by (rule built [THEN conjunct1])
  have eq: "{3, 5, 6, 7, 8} = insert 3 (streaming_fds linux (blocks demo_bar))"
    by (rule built [THEN conjunct2, THEN conjunct1])
  have ex: "\<forall>fd \<in> {3, 5, 6, 7, 8}. fd = 3 \<or>
         (\<exists>b \<in> set (blocks demo_bar).
            interval b = INTER_BLOCKING linux \<and> (fd = out b \<or> fd = err b))"
    by (rule built [THEN conjunct2, THEN conjunct2, THEN conjunct1])
  from ex have five: "\<exists>b \<in> set (blocks demo_bar).
      interval b = INTER_BLOCKING linux \<and> (5 = out b \<or> 5 = err b)"
    by simp
  have "build_wait_set linux 3 (streaming_only linux demo_bar) =
      build_wait_set linux 3 demo_bar"
    by (rule th [THEN conjunct2, THEN conjunct2, THEN conjunct1])
  then have so: "build_wait_set linux 3 (streaming_only linux demo_bar) = Inr ({3, 5, 6, 7, 8}, 9)"
    by (simp only: b)
  show ?thesis
    by (intro conjI r b eq five so)
qed

text \<open>
  With a streaming block whose descriptors are 1024 and 1025 and \<^verbatim>\<open>FD_SETSIZE\<close> 1024 the
  wait set is not the signal descriptor with 1024 and 1025: \<^verbatim>\<open>FD_SET\<close> is given a
  descriptor that does not fit the bitmap.
\<close>

theorem wait_set_built_once_counterexample:
  "build_wait_set linux 3 bar_fd_1024 = Inl (Fd_out_of_range 1024) \<and>
   build_wait_set linux 3 bar_fd_1024 \<noteq> Inr ({3, 1024, 1025}, 1026) \<and>
   insert 3 (streaming_fds linux (blocks bar_fd_1024)) = {3, 1024, 1025} \<and>
   sched_start linux bar_fd_1024 [] 0 [] ready = Undefined (Fd_out_of_range 1024)"
  by (simp add: build_wait_set_def bar_fd_1024_def linux_def ADD_FD_eq streaming_fds_def
      sched_start_def ready_def emit_def insert_commute)

subsection \<open>Fatal conditions and the shutdown sequence\<close>

lemma sched_start_break:
  assumes pos: "\<forall>pid \<in> set kids. 0 < pid"
    and ws: "build_wait_set p (sigfd st) bar = Inr (rfds, nfds)"
    and run: "reactor p bar (sigfd st) nfds ws rfds = (Continue, rfds1, es)"
    and it: "iteration p bar (sigfd st) nfds w rfds1 = (Break, rfds2, es')"
  shows "\<exists>st'. sched_start p bar (ws @ [w]) unblock_ret kids st = Returned st' [] \<and>
           log st' = log st @ [Json_print_bar, Bar_poll_timed] @ es @ es' @
             Sys_sigprocmask SIG_UNBLOCK (sigset st) #
             (if unblock_ret = - 1 then [Errorx ''sigprocmask''] else []) @
             map Sys_waitpid kids @ [Sys_waitpid (- 1), Debug ''quit scheduling''] \<and>
           (unblock_ret \<noteq> - 1 \<longrightarrow> sigmask st' = sigmask st - sigset st)"
proof -
  have "reactor p bar (sigfd st) nfds (ws @ [w]) rfds = (Break, rfds2, es @ es')"
    using reactor_snoc [OF run, of w] by (simp add: it)
  then show ?thesis
    using pos by (simp add: sched_start_def ws shutdown_def emit_def reap_positive Let_def)
qed

text \<open>
  C6. A wait that returns zero, and a read of the signal descriptor that does not return
  the size of one signal record, each end the loop; the last event of the pass is the
  diagnostic. \<^verbatim>\<open>sched_start\<close> then calls \<^verbatim>\<open>sigprocmask\<close> to unblock the signal set, calls
  \<^verbatim>\<open>waitpid\<close> once for each child that is not reaped and once more, and returns with no
  child left.
\<close>

theorem fatal_in_loop_reaches_shutdown:
  assumes pos: "\<forall>pid \<in> set kids. 0 < pid"
    and ws: "build_wait_set p (sigfd st) bar = Inr (rfds, nfds)"
    and run: "reactor p bar (sigfd st) nfds ws rfds = (Continue, rfds1, es)"
    and fatal: "select_ret w = 0 \<or> short_read p (sigfd st) nfds w rfds1"
  shows "\<exists>rfds2 es' d st'.
           iteration p bar (sigfd st) nfds w rfds1 = (Break, rfds2, es' @ [d]) \<and>
           d = (if select_ret w = 0
                then Error ''should not happen: select returned 0 (timeout)''
                else Errorx ''read'') \<and>
           sched_start p bar (ws @ [w]) unblock_ret kids st = Returned st' [] \<and>
           log st' = log st @ [Json_print_bar, Bar_poll_timed] @ es @ es' @ [d] @
             Sys_sigprocmask SIG_UNBLOCK (sigset st) #
             (if unblock_ret = - 1 then [Errorx ''sigprocmask''] else []) @
             map Sys_waitpid kids @ [Sys_waitpid (- 1), Debug ''quit scheduling''] \<and>
           (unblock_ret \<noteq> - 1 \<longrightarrow> sigmask st' = sigmask st - sigset st)"
proof -
  define d where "d = (if select_ret w = 0
                then Error ''should not happen: select returned 0 (timeout)''
                else Errorx ''read'')"
  have "\<exists>rfds2 es'. iteration p bar (sigfd st) nfds w rfds1 = (Break, rfds2, es' @ [d])"
  proof (cases "select_ret w = 0")
    case True
    then have "iteration p bar (sigfd st) nfds w rfds1 = (Break, rfds1, [] @ [d])"
      by (simp add: iteration_def Let_def d_def)
    then show ?thesis by blast
  next
    case False
    with fatal have sr: "short_read p (sigfd st) nfds w rfds1" by simp
    then have sp: "signal_part p (sigfd st) w (rfds_read_of nfds w rfds1) (select_ret w) =
        (Break, select_ret w - 1, [Errorx ''read''])"
      by (simp add: short_read_def signal_part_def rfds_read_of_def)
    have "iteration p bar (sigfd st) nfds w rfds1 =
        (Break, after_failure p bar nfds w rfds1, failure_events p bar nfds w rfds1 @ [d])"
      using sr False by (simp add: iteration_eq short_read_def sp d_def)
    then show ?thesis by blast
  qed
  then obtain rfds2 es' where
    it: "iteration p bar (sigfd st) nfds w rfds1 = (Break, rfds2, es' @ [d])"
    by blast
  obtain st' where st': "sched_start p bar (ws @ [w]) unblock_ret kids st = Returned st' []"
    "log st' = log st @ [Json_print_bar, Bar_poll_timed] @ es @ (es' @ [d]) @
             Sys_sigprocmask SIG_UNBLOCK (sigset st) #
             (if unblock_ret = - 1 then [Errorx ''sigprocmask''] else []) @
             map Sys_waitpid kids @ [Sys_waitpid (- 1), Debug ''quit scheduling'']"
    "unblock_ret \<noteq> - 1 \<longrightarrow> sigmask st' = sigmask st - sigset st"
    using sched_start_break [OF pos ws run it, of unblock_ret] by blast
  have "iteration p bar (sigfd st) nfds w rfds1 = (Break, rfds2, es' @ [d]) \<and>
           d = (if select_ret w = 0
                then Error ''should not happen: select returned 0 (timeout)''
                else Errorx ''read'') \<and>
           sched_start p bar (ws @ [w]) unblock_ret kids st = Returned st' [] \<and>
           log st' = log st @ [Json_print_bar, Bar_poll_timed] @ es @ es' @ [d] @
             Sys_sigprocmask SIG_UNBLOCK (sigset st) #
             (if unblock_ret = - 1 then [Errorx ''sigprocmask''] else []) @
             map Sys_waitpid kids @ [Sys_waitpid (- 1), Debug ''quit scheduling''] \<and>
           (unblock_ret \<noteq> - 1 \<longrightarrow> sigmask st' = sigmask st - sigset st)"
    using it st' by (simp add: d_def)
  then show ?thesis by blast
qed

lemma demo_short_pass:
  "iteration linux demo_bar 3 9 w_short {3, 5, 6, 7, 8} = (Break, {3, 5, 6, 7, 8}, [Errorx ''read''])"
  by code_simp

lemma demo_zero_pass:
  "iteration linux demo_bar 3 9 w_zero {3, 5, 6, 7, 8} =
     (Break, {3, 5, 6, 7, 8}, [Error ''should not happen: select returned 0 (timeout)''])"
  by code_simp

theorem fatal_in_loop_reaches_shutdown_witness:
  "(\<exists>st'. sched_start linux demo_bar [w_data, w_short] 0 [101, 102] ready = Returned st' [] \<and>
      log st' = [Json_print_bar, Bar_poll_timed,
        Block_read_std 1 0 1, Block_read_std 2 0 2, Json_print_bar,
        Errorx ''read'',
        Sys_sigprocmask SIG_UNBLOCK {2, 15}, Sys_waitpid 101, Sys_waitpid 102,
        Sys_waitpid (- 1), Debug ''quit scheduling''] \<and>
      sigmask st' = {20}) \<and>
   (\<exists>st'. sched_start linux demo_bar [w_data, w_zero] 0 [101, 102] ready = Returned st' [] \<and>
      log st' = [Json_print_bar, Bar_poll_timed,
        Block_read_std 1 0 1, Block_read_std 2 0 2, Json_print_bar,
        Error ''should not happen: select returned 0 (timeout)'',
        Sys_sigprocmask SIG_UNBLOCK {2, 15}, Sys_waitpid 101, Sys_waitpid 102,
        Sys_waitpid (- 1), Debug ''quit scheduling''] \<and>
      sigmask st' = {20})"
proof -
  have pos: "\<forall>pid \<in> set [101, 102 :: int]. 0 < pid" by simp
  have sf: "sigfd ready = 3" by (simp add: ready_def)
  have ws: "build_wait_set linux (sigfd ready) demo_bar = Inr ({3, 5, 6, 7, 8}, 9)"
    by (simp only: sf demo_wait_set)
  have run: "reactor linux demo_bar (sigfd ready) 9 [w_data] {3, 5, 6, 7, 8} =
     (Continue, {3, 5, 6, 7, 8}, [Block_read_std 1 0 1, Block_read_std 2 0 2, Json_print_bar])"
    by (simp only: sf demo_run)
  have short: "select_ret w_short = 0 \<or> short_read linux (sigfd ready) 9 w_short {3, 5, 6, 7, 8}"
    by code_simp
  have zero: "select_ret w_zero = 0 \<or> short_read linux (sigfd ready) 9 w_zero {3, 5, 6, 7, 8}"
    by (simp add: w_zero_def)
  have s1: "select_ret w_short \<noteq> 0" by (simp add: w_short_def)
  have s0: "select_ret w_zero = 0" by (simp add: w_zero_def)
  have rd: "sigset ready = {2, 15}" "log ready = []"
    by (simp_all add: ready_def)
  have mk: "sigmask ready - sigset ready = {20}"
    by (simp add: ready_def)
  obtain r1 e1 d1 st1 where
    a: "iteration linux demo_bar (sigfd ready) 9 w_short {3, 5, 6, 7, 8} = (Break, r1, e1 @ [d1])"
      "sched_start linux demo_bar ([w_data] @ [w_short]) 0 [101, 102] ready = Returned st1 []"
      "log st1 = log ready @ [Json_print_bar, Bar_poll_timed] @
         [Block_read_std 1 0 1, Block_read_std 2 0 2, Json_print_bar] @ e1 @ [d1] @
         Sys_sigprocmask SIG_UNBLOCK (sigset ready) #
         (if (0::int) = - 1 then [Errorx ''sigprocmask''] else []) @
         map Sys_waitpid [101, 102] @ [Sys_waitpid (- 1), Debug ''quit scheduling'']"
      "(0::int) \<noteq> - 1 \<longrightarrow> sigmask st1 = sigmask ready - sigset ready"
    using fatal_in_loop_reaches_shutdown [OF pos ws run short, of 0] by blast
  obtain r2 e2 d2 st2 where
    b: "iteration linux demo_bar (sigfd ready) 9 w_zero {3, 5, 6, 7, 8} = (Break, r2, e2 @ [d2])"
      "sched_start linux demo_bar ([w_data] @ [w_zero]) 0 [101, 102] ready = Returned st2 []"
      "log st2 = log ready @ [Json_print_bar, Bar_poll_timed] @
         [Block_read_std 1 0 1, Block_read_std 2 0 2, Json_print_bar] @ e2 @ [d2] @
         Sys_sigprocmask SIG_UNBLOCK (sigset ready) #
         (if (0::int) = - 1 then [Errorx ''sigprocmask''] else []) @
         map Sys_waitpid [101, 102] @ [Sys_waitpid (- 1), Debug ''quit scheduling'']"
      "(0::int) \<noteq> - 1 \<longrightarrow> sigmask st2 = sigmask ready - sigset ready"
    using fatal_in_loop_reaches_shutdown [OF pos ws run zero, of 0] by blast
  have e1: "e1 @ [d1] = [Errorx ''read'']"
    using a(1) by (simp add: sf demo_short_pass)
  have e2: "e2 @ [d2] = [Error ''should not happen: select returned 0 (timeout)'']"
    using b(1) by (simp add: sf demo_zero_pass)
  have l1: "log st1 = [Json_print_bar, Bar_poll_timed,
        Block_read_std 1 0 1, Block_read_std 2 0 2, Json_print_bar,
        Errorx ''read'',
        Sys_sigprocmask SIG_UNBLOCK {2, 15}, Sys_waitpid 101, Sys_waitpid 102,
        Sys_waitpid (- 1), Debug ''quit scheduling'']"
    using a(3) e1 by (simp add: rd append_eq_Cons_conv)
  have l2: "log st2 = [Json_print_bar, Bar_poll_timed,
        Block_read_std 1 0 1, Block_read_std 2 0 2, Json_print_bar,
        Error ''should not happen: select returned 0 (timeout)'',
        Sys_sigprocmask SIG_UNBLOCK {2, 15}, Sys_waitpid 101, Sys_waitpid 102,
        Sys_waitpid (- 1), Debug ''quit scheduling'']"
    using b(3) e2 by (simp add: rd append_eq_Cons_conv)
  have m: "sigmask st1 = {20}" "sigmask st2 = {20}"
    using a(4) b(4) by (simp_all add: mk)
  show ?thesis
    using a(2) b(2) l1 l2 m by simp
qed

subsection \<open>What a failed select does to the streaming blocks\<close>

lemma data_reads_mem:
  "Block_read_std i e f \<in> set (data_reads p rd k bs) \<Longrightarrow>
   k \<le> i \<and> i < k + length bs \<and> has_data p rd (bs ! (i - k))"
  by (auto simp: data_reads_def in_set_enumerate_eq)

lemma broken_events_eof: "Block_read_std i e f \<in> set (broken_events p exc k bs) \<Longrightarrow> e = 1"
  by (auto simp: broken_events_def)

lemma signal_part_no_read:
  "Block_read_std i e f \<notin> set (snd (snd (signal_part p sfd w rd a)))"
  by (auto simp: signal_part_def dispatch_def Let_def split: prod.splits if_splits)

lemma sweep_mem:
  "Block_read_std i e f \<in> set (sweep p bar rd) \<Longrightarrow>
   i < length (blocks bar) \<and> has_data p rd (blocks bar ! i)"
  using data_reads_mem [of i e f p rd 0 "blocks bar"]
  by (auto simp: sweep_eq split: if_splits)

lemma iteration_read_mem:
  assumes "Block_read_std i 0 f \<in> set (snd (snd (iteration p bar sfd nfds w rfds)))"
  shows "i < length (blocks bar) \<and> has_data p (rfds_read_of nfds w rfds) (blocks bar ! i)"
proof (cases "interrupted p w \<or> select_ret w = 0")
  case True
  with assms show ?thesis
    by (auto simp: iteration_def Let_def interrupted_def)
next
  case False
  then have ni: "\<not> interrupted p w" and nz: "select_ret w \<noteq> 0" by simp_all
  obtain fl a es2 where sp:
    "signal_part p sfd w (rfds_read_of nfds w rfds) (select_ret w) = (fl, a, es2)"
    by (cases "signal_part p sfd w (rfds_read_of nfds w rfds) (select_ret w)")
  have n2: "Block_read_std i 0 f \<notin> set es2"
    using signal_part_no_read [of i 0 f p sfd w "rfds_read_of nfds w rfds" "select_ret w"]
    by (simp add: sp)
  have n1: "Block_read_std i 0 f \<notin> set (failure_events p bar nfds w rfds)"
    using broken_events_eof [of i 0 f p "rfds_exc_of nfds w rfds" 0 "blocks bar"]
    by (auto simp: failure_events_def)
  from assms have "Block_read_std i 0 f \<in> set (sweep p bar (rfds_read_of nfds w rfds))"
    using n1 n2 by (auto simp: iteration_eq [OF ni nz] sp split: if_splits)
  then show ?thesis by (rule sweep_mem)
qed

lemma iteration_unwatched_no_read:
  assumes "out (blocks bar ! i) \<notin> rfds" and "err (blocks bar ! i) \<notin> rfds"
  shows "Block_read_std i 0 f \<notin> set (snd (snd (iteration p bar sfd nfds w rfds)))"
  using iteration_read_mem [of i f p bar sfd nfds w rfds]
    unwatched_block_silent [OF assms, of p nfds w]
  by blast

lemma reactor_unwatched_no_read:
  assumes "out (blocks bar ! i) \<notin> rfds" and "err (blocks bar ! i) \<notin> rfds"
  shows "Block_read_std i 0 f \<notin> set (snd (snd (reactor p bar sfd nfds ws rfds)))"
  using assms
proof (induction ws arbitrary: rfds)
  case Nil
  show ?case by simp
next
  case (Cons w ws)
  obtain fl r es where it: "iteration p bar sfd nfds w rfds = (fl, r, es)"
    by (cases "iteration p bar sfd nfds w rfds")
  have sub: "r \<subseteq> rfds" using iteration_subset [of p bar sfd nfds w rfds] by (simp add: it)
  have es: "Block_read_std i 0 f \<notin> set es"
    using iteration_unwatched_no_read [OF Cons.prems, of f p sfd nfds w] by (simp add: it)
  have r: "out (blocks bar ! i) \<notin> r" "err (blocks bar ! i) \<notin> r"
    using sub Cons.prems by auto
  show ?case
  proof (cases fl)
    case Break
    then show ?thesis using es by (simp add: it)
  next
    case Continue
    obtain fl' r' es' where re: "reactor p bar sfd nfds ws r = (fl', r', es')"
      by (cases "reactor p bar sfd nfds ws r")
    have "Block_read_std i 0 f \<notin> set es'"
      using Cons.IH [OF r] by (simp add: re)
    then show ?thesis using es Continue by (simp add: it re)
  qed
qed

lemma posix_failure_faulty:
  assumes "posix_failure nfds w rfds"
    and "interval b = INTER_BLOCKING p"
    and "out b \<in> copy_fd_set rfds nfds \<or> err b \<in> copy_fd_set rfds nfds"
  shows "faulty p (rfds_exc_of nfds w rfds) b"
  using assms by (auto simp: posix_failure_def faulty_def rfds_exc_of_def)

text \<open>
  C3. A \<^verbatim>\<open>select\<close> that fails leaves its descriptor sets as they were, so after a failure
  other than \<^verbatim>\<open>EINTR\<close> the exception set holds every descriptor that was watched. The
  pass then treats every streaming block with a watched descriptor as broken, whichever
  descriptor made \<^verbatim>\<open>select\<close> fail: each of them gets \<^verbatim>\<open>berror\<close> and
  \<^verbatim>\<open>block_read_std(block, 1, 0)\<close>, loses both descriptors, and gets no
  \<^verbatim>\<open>block_read_std(block, 0, flags)\<close> in any later pass. (The descriptors are taken to
  fit an \<^verbatim>\<open>fd_set\<close>.)
\<close>

theorem failed_select_drops_every_stream:
  assumes posix: "posix_failure nfds w rfds" and ne: "select_errno w \<noteq> EINTR p"
    and i: "i < length (blocks bar)"
    and stream: "interval (blocks bar ! i) = INTER_BLOCKING p"
    and watched: "out (blocks bar ! i) \<in> copy_fd_set rfds nfds \<or>
                  err (blocks bar ! i) \<in> copy_fd_set rfds nfds"
    and it: "iteration p bar sfd nfds w rfds = (fl, rfds', es)"
    and range: "fds_in_range p sfd bar" "nfds \<le> FD_SETSIZE p"
  shows "(\<exists>xs ys. es = Errorx ''select'' # xs @
            Berror i ''broken stdout/err'' # Block_read_std i 1 0 # ys) \<and>
         out (blocks bar ! i) \<notin> rfds' \<and> err (blocks bar ! i) \<notin> rfds' \<and>
         (\<forall>ws. out (blocks bar ! i) \<notin> fst (snd (reactor p bar sfd nfds ws rfds')) \<and>
               err (blocks bar ! i) \<notin> fst (snd (reactor p bar sfd nfds ws rfds')) \<and>
               (\<forall>f. Block_read_std i 0 f \<notin> set (snd (snd (reactor p bar sfd nfds ws rfds')))))"
proof -
  let ?b = "blocks bar ! i"
  let ?rd = "rfds_read_of nfds w rfds" and ?exc = "rfds_exc_of nfds w rfds"
  have fail: "select_ret w = - 1" using posix by (simp add: posix_failure_def)
  have f: "faulty p ?exc ?b" by (rule posix_failure_faulty [OF posix stream watched])
  obtain fl0 a es2 where sp: "signal_part p sfd w ?rd (- 1) = (fl0, a, es2)"
    by (cases "signal_part p sfd w ?rd (- 1)")
  have eq: "(fl, rfds', es) =
      (fl0, rfds - broken_fds p ?exc (blocks bar),
       Errorx ''select'' # broken_events p ?exc 0 (blocks bar) @ es2 @
       (if fl0 = Continue then sweep p bar ?rd else []))"
    using failed_iteration_eq [OF fail ne, of bar sfd nfds rfds] by (simp add: it sp)
  then have r: "rfds' = rfds - broken_fds p ?exc (blocks bar)"
    and es: "es = Errorx ''select'' # broken_events p ?exc 0 (blocks bar) @ es2 @
       (if fl0 = Continue then sweep p bar ?rd else [])"
    by simp_all
  have gone: "out ?b \<notin> rfds'" "err ?b \<notin> rfds'"
    using broken_fds_nth [OF i f] by (simp_all add: r)
  obtain xs ys where be: "broken_events p ?exc 0 (blocks bar) =
      xs @ Berror i ''broken stdout/err'' # Block_read_std i 1 0 # ys"
    using broken_events_nth [OF i f, of 0] by auto
  have ev: "\<exists>xs ys. es = Errorx ''select'' # xs @
        Berror i ''broken stdout/err'' # Block_read_std i 1 0 # ys"
    by (subst es, subst be) auto
  have later: "out ?b \<notin> fst (snd (reactor p bar sfd nfds ws rfds')) \<and>
               err ?b \<notin> fst (snd (reactor p bar sfd nfds ws rfds')) \<and>
               (\<forall>f. Block_read_std i 0 f \<notin> set (snd (snd (reactor p bar sfd nfds ws rfds'))))"
    for ws
    using gone reactor_subset [of p bar sfd nfds ws rfds']
      reactor_unwatched_no_read [OF gone, of _ p sfd nfds ws]
    by blast
  show ?thesis
    using ev gone later by blast
qed

lemma demo_after_failure:
  "reactor linux demo_bar 3 9 [w_alrm, w_alrm] {3} =
     (Continue, {3},
      [Debug ''received signal %d (%s)'', Bar_poll_outdated,
       Debug ''received signal %d (%s)'', Bar_poll_outdated])"
  by code_simp

theorem failed_select_drops_every_stream_witness:
  "iteration linux demo_bar 3 9 w_ebadf {3, 5, 6, 7, 8} =
     (Continue, {3},
      [Errorx ''select'',
       Berror 1 ''broken stdout/err'', Block_read_std 1 1 0,
       Berror 2 ''broken stdout/err'', Block_read_std 2 1 0,
       Debug ''received signal %d (%s)'', Bar_poll_outdated,
       Block_read_std 1 0 3, Block_read_std 2 0 3, Json_print_bar]) \<and>
   out (blocks demo_bar ! 2) \<notin> {3 :: int} \<and> err (blocks demo_bar ! 2) \<notin> {3 :: int} \<and>
   out (blocks demo_bar ! 2) \<notin> fst (snd (reactor linux demo_bar 3 9 [w_alrm, w_alrm] {3})) \<and>
   Block_read_std 2 0 1 \<notin> set (snd (snd (reactor linux demo_bar 3 9 [w_alrm, w_alrm] {3}))) \<and>
   reactor linux demo_bar 3 9 [w_alrm, w_alrm] {3} =
     (Continue, {3},
      [Debug ''received signal %d (%s)'', Bar_poll_outdated,
       Debug ''received signal %d (%s)'', Bar_poll_outdated])"
proof -
  have posix: "posix_failure 9 w_ebadf {3, 5, 6, 7, 8}" by code_simp
  have ne: "select_errno w_ebadf \<noteq> EINTR linux" by (simp add: w_ebadf_def linux_def)
  have i: "2 < length (blocks demo_bar)" by (simp add: demo_bar_def)
  have stream: "interval (blocks demo_bar ! 2) = INTER_BLOCKING linux" by code_simp
  have watched: "out (blocks demo_bar ! 2) \<in> copy_fd_set {3, 5, 6, 7, 8} 9 \<or>
                 err (blocks demo_bar ! 2) \<in> copy_fd_set {3, 5, 6, 7, 8} 9"
    by code_simp
  have range: "fds_in_range linux 3 demo_bar" "9 \<le> FD_SETSIZE linux"
    by code_simp+
  note th = failed_select_drops_every_stream [OF posix ne i stream watched demo_failed_pass range]
  have a: "out (blocks demo_bar ! 2) \<notin> {3 :: int}"
    by (rule th [THEN conjunct2, THEN conjunct1])
  have b: "err (blocks demo_bar ! 2) \<notin> {3 :: int}"
    by (rule th [THEN conjunct2, THEN conjunct2, THEN conjunct1])
  note l = th [THEN conjunct2, THEN conjunct2, THEN conjunct2, rule_format, of "[w_alrm, w_alrm]"]
  have c: "out (blocks demo_bar ! 2) \<notin> fst (snd (reactor linux demo_bar 3 9 [w_alrm, w_alrm] {3}))"
    by (rule l [THEN conjunct1])
  have d: "Block_read_std 2 0 1 \<notin> set (snd (snd (reactor linux demo_bar 3 9 [w_alrm, w_alrm] {3})))"
    by (rule l [THEN conjunct2, THEN conjunct2, rule_format])
  show ?thesis
    by (intro conjI demo_failed_pass a b c d demo_after_failure)
qed

end
